theory Spec2Isabelle
  imports Complex_Main "HOL-Library.Word"
begin

section \<open>Bytes, buffers and errors\<close>

text \<open>
  A Node \<open>Buffer\<close> is a list of bytes. Every \<open>throw new Error(...)\<close> of the three codecs
  is a constructor of \<open>error\<close>, named after the message it carries; \<open>SyntaxError\<close> is what
  \<open>JSON.parse\<close> throws and \<open>RangeError\<close> what \<open>writeUInt32LE\<close> throws on a value that does
  not fit in 32 bits.
\<close>

type_synonym byte = "8 word"
type_synonym buffer = "byte list"

datatype error =
    TooSmall
  | InvalidMagic
  | HeaderSizeMismatch
  | SyntaxError
  | RangeError
  | UnsupportedVersion
  | ChecksumMismatch
  | CannotDetermineDimensions
  | PFrameWithoutIFrame
  | IndexSizeMismatch
  | TypeError

section \<open>Text codec: run-length coding\<close>

text \<open>
  \<open>run_from c xs\<close> is the number of leading elements of \<open>xs\<close> equal to \<open>c\<close>: the inner
  \<open>while\<close> of \<open>simpleCompress\<close> leaves \<open>runLength = 1 + run_from data[i] data[i+1..]\<close>.
\<close>

fun run_from :: "byte \<Rightarrow> buffer \<Rightarrow> nat" where
  "run_from c [] = 0"
| "run_from c (x # xs) = (if x = c then Suc (run_from c xs) else 0)"

text \<open>
  The outer loop of \<open>simpleCompress\<close>, on the part of the input from index \<open>i\<close> on. It
  fills the \<open>number[]\<close> array \<open>compressed\<close>, whose entries are not yet bytes: the run
  length is pushed as it was counted.
\<close>

fun compress_loop :: "buffer \<Rightarrow> nat list" where
  "compress_loop [] = []"
| "compress_loop (currentByte # rest) =
     (let runLength = 1 + run_from currentByte rest in
        (if runLength > 3 then [255, unat currentByte, runLength]
         else replicate runLength (unat currentByte))
        @ compress_loop (drop (runLength - 1) rest))"

text \<open>\<open>Buffer.from(number[])\<close> keeps the low eight bits of every entry.\<close>

definition Buffer_from :: "nat list \<Rightarrow> buffer" where
  "Buffer_from ns = map of_nat ns"

definition simpleCompress :: "buffer \<Rightarrow> buffer" where
  "simpleCompress data = Buffer_from (compress_loop data)"

text \<open>
  \<open>simpleDecompress\<close>, on the part of the input from index \<open>i\<close> on. The test
  \<open>i + 2 < compressedData.length\<close> holds exactly when three bytes or more remain.
\<close>

fun simpleDecompress :: "buffer \<Rightarrow> buffer" where
  "simpleDecompress (x # byte # runLength # rest) =
     (if x = 255 then replicate (unat runLength) byte @ simpleDecompress rest
      else x # simpleDecompress (byte # runLength # rest))"
| "simpleDecompress (x # rest) = x # simpleDecompress rest"
| "simpleDecompress [] = []"

section \<open>Container framing\<close>

text \<open>
  \<open>Buffer.from(s, 'ascii')\<close> writes one byte per character. \<open>buf.toString('ascii')\<close>
  clears the top bit of every byte before it makes the character (Node documents this for
  the \<open>'ascii'\<close> decoding), so the byte \<open>0xD4\<close> reads as \<open>T\<close>.
\<close>

definition ascii_bytes :: "string \<Rightarrow> buffer" where
  "ascii_bytes s = map (\<lambda>c. of_nat (of_char c)) s"

definition toString_ascii :: "buffer \<Rightarrow> string" where
  "toString_ascii b = map (\<lambda>x. char_of (unat x mod 128)) b"

text \<open>\<open>buf.subarray(start, end)\<close> and \<open>buf.subarray(start)\<close>, both clipped to the buffer.\<close>

definition subarray :: "buffer \<Rightarrow> nat \<Rightarrow> nat \<Rightarrow> buffer" where
  "subarray b start stop = take (stop - start) (drop start b)"

definition subarray_from :: "buffer \<Rightarrow> nat \<Rightarrow> buffer" where
  "subarray_from b start = drop start b"

text \<open>
  \<open>writeUInt32LE\<close> on a fresh four-byte buffer: a \<open>RangeError\<close> for a value of \<open>2^32\<close> or
  more, the four bytes, lowest first, otherwise. \<open>readUInt32LE(off)\<close> is only called here
  after the length check that makes the four bytes exist; a short buffer is a
  \<open>RangeError\<close> as in Node.
\<close>

definition writeUInt32LE :: "nat \<Rightarrow> error + buffer" where
  "writeUInt32LE n =
     (if n \<ge> 2 ^ 32 then Inl RangeError
      else Inr [of_nat n, of_nat (n div 256), of_nat (n div 65536), of_nat (n div 16777216)])"

definition readUInt32LE :: "buffer \<Rightarrow> nat \<Rightarrow> error + nat" where
  "readUInt32LE b off =
     (if length b < off + 4 then Inl RangeError
      else Inr (unat (b ! off) + 256 * unat (b ! (off + 1))
                + 65536 * unat (b ! (off + 2)) + 16777216 * unat (b ! (off + 3))))"

text \<open>
  The three codecs carry the same \<open>createContainer\<close> and \<open>parseContainer\<close>, each with its
  own \<open>MAGIC\<close>. The header goes through \<open>JSON.stringify\<close> and \<open>Buffer.from(_, 'utf8')\<close> on
  the way out and through \<open>toString('utf8')\<close> and \<open>JSON.parse\<close> on the way in. Both are
  the platform's, not the repository's: they are the parameters \<open>enc\<close> (header to bytes)
  and \<open>dec\<close> (bytes to header, \<open>None\<close> when \<open>JSON.parse\<close> throws).
\<close>

definition createContainer ::
  "string \<Rightarrow> ('h \<Rightarrow> buffer) \<Rightarrow> 'h \<Rightarrow> buffer \<Rightarrow> error + buffer" where
  "createContainer MAGIC enc header compressedData =
     (let headerData = enc header in
      case writeUInt32LE (length headerData) of
        Inl e \<Rightarrow> Inl e
      | Inr headerSize \<Rightarrow> Inr (ascii_bytes MAGIC @ headerSize @ headerData @ compressedData))"

definition parseContainer ::
  "string \<Rightarrow> (buffer \<Rightarrow> 'h option) \<Rightarrow> buffer \<Rightarrow> error + ('h \<times> buffer)" where
  "parseContainer MAGIC dec data =
     (if length data < 8 then Inl TooSmall
      else if toString_ascii (subarray data 0 4) \<noteq> MAGIC then Inl InvalidMagic
      else case readUInt32LE data 4 of
        Inl e \<Rightarrow> Inl e
      | Inr headerSize \<Rightarrow>
          if length data < 8 + headerSize then Inl HeaderSizeMismatch
          else (case dec (subarray data 8 (8 + headerSize)) of
                  None \<Rightarrow> Inl SyntaxError
                | Some header \<Rightarrow> Inr (header, subarray_from data (8 + headerSize))))"

definition TCF_MAGIC :: string where "TCF_MAGIC = ''TCF1''"
definition ICF_MAGIC :: string where "ICF_MAGIC = ''ICF1''"
definition VCF_MAGIC :: string where "VCF_MAGIC = ''VCF1''"

definition TextCodec_createContainer :: "('h \<Rightarrow> buffer) \<Rightarrow> 'h \<Rightarrow> buffer \<Rightarrow> error + buffer" where
  "TextCodec_createContainer = createContainer TCF_MAGIC"

definition TextCodec_parseContainer :: "(buffer \<Rightarrow> 'h option) \<Rightarrow> buffer \<Rightarrow> error + ('h \<times> buffer)" where
  "TextCodec_parseContainer = parseContainer TCF_MAGIC"

definition ImageCodec_createContainer :: "('h \<Rightarrow> buffer) \<Rightarrow> 'h \<Rightarrow> buffer \<Rightarrow> error + buffer" where
  "ImageCodec_createContainer = createContainer ICF_MAGIC"

definition ImageCodec_parseContainer :: "(buffer \<Rightarrow> 'h option) \<Rightarrow> buffer \<Rightarrow> error + ('h \<times> buffer)" where
  "ImageCodec_parseContainer = parseContainer ICF_MAGIC"

definition VideoCodec_createContainer :: "('h \<Rightarrow> buffer) \<Rightarrow> 'h \<Rightarrow> buffer \<Rightarrow> error + buffer" where
  "VideoCodec_createContainer = createContainer VCF_MAGIC"

definition VideoCodec_parseContainer :: "(buffer \<Rightarrow> 'h option) \<Rightarrow> buffer \<Rightarrow> error + ('h \<times> buffer)" where
  "VideoCodec_parseContainer = parseContainer VCF_MAGIC"

section \<open>Text codec: encode and decode\<close>

record TCFHeader =
  tcf_magic :: string
  tcf_version :: int
  tcf_flags :: int
  tcf_originalSize :: int
  tcf_compressedSize :: int
  tcf_checksum :: string

definition TCF_VERSION :: int where "TCF_VERSION = 1"

text \<open>
  \<open>TextCodec.encode\<close> from the point where \<open>originalData\<close>, the UTF-8 bytes of the
  NFC-normalised text, is at hand. \<open>sha256\<close> stands for
  \<open>createHash('sha256').update(_).digest('hex')\<close>.
\<close>

definition TextCodec_encode ::
  "(buffer \<Rightarrow> string) \<Rightarrow> (TCFHeader \<Rightarrow> buffer) \<Rightarrow> buffer \<Rightarrow> error + buffer" where
  "TextCodec_encode sha256 enc originalData =
     (let compressedData = simpleCompress originalData;
          header = \<lparr> tcf_magic = TCF_MAGIC, tcf_version = TCF_VERSION, tcf_flags = 0,
                     tcf_originalSize = int (length originalData),
                     tcf_compressedSize = int (length compressedData),
                     tcf_checksum = sha256 originalData \<rparr>
      in TextCodec_createContainer enc header compressedData)"

text \<open>
  \<open>TextCodec.decode\<close> up to the final \<open>toString('utf8')\<close>: the result is the decompressed
  byte sequence.
\<close>

definition TextCodec_decode ::
  "(buffer \<Rightarrow> string) \<Rightarrow> (buffer \<Rightarrow> TCFHeader option) \<Rightarrow> buffer \<Rightarrow> error + buffer" where
  "TextCodec_decode sha256 dec tcfData =
     (case TextCodec_parseContainer dec tcfData of
        Inl e \<Rightarrow> Inl e
      | Inr (header, compressedData) \<Rightarrow>
          if tcf_magic header \<noteq> TCF_MAGIC then Inl InvalidMagic
          else if tcf_version header \<noteq> TCF_VERSION then Inl UnsupportedVersion
          else let decompressedData = simpleDecompress compressedData in
               if sha256 decompressedData \<noteq> tcf_checksum header then Inl ChecksumMismatch
               else Inr decompressedData)"

section \<open>A JSON codec for closed examples\<close>

text \<open>
  The theorems below hold for every \<open>enc\<close> and \<open>dec\<close>. To run the codecs on concrete
  buffers, this section gives one instance: JSON values with integer numbers and strings
  free of escapes, printed the way \<open>JSON.stringify\<close> prints them (no white space, keys in
  insertion order) and parsed by recursive descent. A text is held as its UTF-8 bytes,
  one \<open>char\<close> per byte. Fractions, exponents and backslash escapes are outside the
  fragment: the parser rejects them.
\<close>

datatype json =
    JNull
  | JBool bool
  | JNum int
  | JStr string
  | JArr "json list"
  | JObj "(string \<times> json) list"

definition digit_char :: "int \<Rightarrow> char" where
  "digit_char d = char_of (48 + d)"

text \<open>The decimal digits of a non-negative integer.\<close>

function show_digits :: "int \<Rightarrow> string" where
  "show_digits n =
     (if n < 10 then [digit_char n] else show_digits (n div 10) @ [digit_char (n mod 10)])"
  by pat_completeness auto
termination
  by (relation "measure nat") auto

declare show_digits.simps [simp del]

definition show_int :: "int \<Rightarrow> string" where
  "show_int i = (if i < 0 then CHR ''-'' # show_digits (- i) else show_digits i)"

definition quote :: "string \<Rightarrow> string" where
  "quote s = CHR 0x22 # s @ [CHR 0x22]"

fun commas :: "string list \<Rightarrow> string" where
  "commas [] = []"
| "commas [x] = x"
| "commas (x # y # zs) = x @ CHR '','' # commas (y # zs)"

fun stringify :: "json \<Rightarrow> string" where
  "stringify JNull = ''null''"
| "stringify (JBool b) = (if b then ''true'' else ''false'')"
| "stringify (JNum i) = show_int i"
| "stringify (JStr s) = quote s"
| "stringify (JArr vs) = CHR ''['' # commas (map stringify vs) @ '']''"
| "stringify (JObj kvs) =
     CHR ''{'' # commas (map (\<lambda>(k, v). quote k @ CHR '':'' # stringify v) kvs) @ ''}''"

definition is_ws :: "char \<Rightarrow> bool" where
  "is_ws c = (c = CHR '' '' \<or> c = CHR 0x09 \<or> c = CHR 0x0A \<or> c = CHR 0x0D)"

definition skip_ws :: "string \<Rightarrow> string" where
  "skip_ws s = dropWhile is_ws s"

definition is_digit :: "char \<Rightarrow> bool" where
  "is_digit c = (48 \<le> (of_char c :: nat) \<and> (of_char c :: nat) \<le> 57)"

definition digits_value :: "string \<Rightarrow> int" where
  "digits_value ds = foldl (\<lambda>acc c. 10 * acc + (of_char c - 48)) 0 ds"

definition strip_prefix :: "string \<Rightarrow> string \<Rightarrow> string option" where
  "strip_prefix p s = (if take (length p) s = p then Some (drop (length p) s) else None)"

definition parse_nat :: "string \<Rightarrow> (int \<times> string) option" where
  "parse_nat s =
     (let ds = takeWhile is_digit s; rest = dropWhile is_digit s in
      if ds = [] \<or> (length ds > 1 \<and> hd ds = CHR ''0'') then None
      else case rest of
        [] \<Rightarrow> Some (digits_value ds, rest)
      | c # _ \<Rightarrow> if c = CHR ''.'' \<or> c = CHR ''e'' \<or> c = CHR ''E'' then None
                 else Some (digits_value ds, rest))"

definition parse_string :: "string \<Rightarrow> (string \<times> string) option" where
  "parse_string s =
     (let body = takeWhile (\<lambda>c. c \<noteq> CHR 0x22) s; rest = dropWhile (\<lambda>c. c \<noteq> CHR 0x22) s in
      if rest = [] \<or> list_ex (\<lambda>c. c = CHR 0x5C \<or> (of_char c :: nat) < 32) body then None
      else Some (body, tl rest))"

text \<open>The first argument bounds the nesting depth plus the number of siblings read.\<close>

fun parse_value :: "nat \<Rightarrow> string \<Rightarrow> (json \<times> string) option"
  and parse_elements :: "nat \<Rightarrow> string \<Rightarrow> (json list \<times> string) option"
  and parse_members :: "nat \<Rightarrow> string \<Rightarrow> ((string \<times> json) list \<times> string) option"
where
  "parse_value 0 s = None"
| "parse_value (Suc n) s =
     (case skip_ws s of
        [] \<Rightarrow> None
      | c # cs \<Rightarrow>
          if c = CHR ''n'' then map_option (Pair JNull) (strip_prefix ''ull'' cs)
          else if c = CHR ''t'' then map_option (Pair (JBool True)) (strip_prefix ''rue'' cs)
          else if c = CHR ''f'' then map_option (Pair (JBool False)) (strip_prefix ''alse'' cs)
          else if c = CHR 0x22 then map_option (\<lambda>(b, r). (JStr b, r)) (parse_string cs)
          else if c = CHR ''-'' then map_option (\<lambda>(k, r). (JNum (- k), r)) (parse_nat cs)
          else if is_digit c then map_option (\<lambda>(k, r). (JNum k, r)) (parse_nat (c # cs))
          else if c = CHR ''['' then
            (case skip_ws cs of
               [] \<Rightarrow> None
             | d # ds \<Rightarrow> if d = CHR '']'' then Some (JArr [], ds)
                         else map_option (\<lambda>(vs, r). (JArr vs, r)) (parse_elements n cs))
          else if c = CHR ''{'' then
            (case skip_ws cs of
               [] \<Rightarrow> None
             | d # ds \<Rightarrow> if d = CHR ''}'' then Some (JObj [], ds)
                         else map_option (\<lambda>(kvs, r). (JObj kvs, r)) (parse_members n cs))
          else None)"
| "parse_elements 0 s = None"
| "parse_elements (Suc n) s =
     (case parse_value n s of
        None \<Rightarrow> None
      | Some (v, r) \<Rightarrow>
          (case skip_ws r of
             [] \<Rightarrow> None
           | c # cs \<Rightarrow>
               if c = CHR '']'' then Some ([v], cs)
               else if c = CHR '','' then map_option (\<lambda>(vs, r'). (v # vs, r')) (parse_elements n cs)
               else None))"
| "parse_members 0 s = None"
| "parse_members (Suc n) s =
     (case skip_ws s of
        [] \<Rightarrow> None
      | q # qs \<Rightarrow>
          if q \<noteq> CHR 0x22 then None
          else (case parse_string qs of
             None \<Rightarrow> None
           | Some (k, r) \<Rightarrow>
               (case skip_ws r of
                  [] \<Rightarrow> None
                | c # cs \<Rightarrow>
                    if c \<noteq> CHR '':'' then None
                    else (case parse_value n cs of
                       None \<Rightarrow> None
                     | Some (v, r') \<Rightarrow>
                         (case skip_ws r' of
                            [] \<Rightarrow> None
                          | e # es \<Rightarrow>
                              if e = CHR ''}'' then Some ([(k, v)], es)
                              else if e = CHR '','' then
                                map_option (\<lambda>(kvs, r''). ((k, v) # kvs, r'')) (parse_members n es)
                              else None)))))"

definition JSON_parse :: "string \<Rightarrow> json option" where
  "JSON_parse s =
     (case parse_value (Suc (length s)) s of
        None \<Rightarrow> None
      | Some (v, r) \<Rightarrow> if skip_ws r = [] then Some v else None)"

definition utf8_bytes :: "string \<Rightarrow> buffer" where
  "utf8_bytes s = map (\<lambda>c. of_nat (of_char c)) s"

definition utf8_string :: "buffer \<Rightarrow> string" where
  "utf8_string b = map (\<lambda>x. char_of (unat x)) b"

text \<open>A property read of a parsed object; a repeated key keeps its last value.\<close>

definition field :: "json \<Rightarrow> string \<Rightarrow> json option" where
  "field j k = (case j of JObj kvs \<Rightarrow> map_of (rev kvs) k | _ \<Rightarrow> None)"

definition num_field :: "json \<Rightarrow> string \<Rightarrow> int option" where
  "num_field j k = (case field j k of Some (JNum i) \<Rightarrow> Some i | _ \<Rightarrow> None)"

definition str_field :: "json \<Rightarrow> string \<Rightarrow> string option" where
  "str_field j k = (case field j k of Some (JStr s) \<Rightarrow> Some s | _ \<Rightarrow> None)"

text \<open>
  The header object literal of \<open>TextCodec.encode\<close>, key by key, and the reading of a
  parsed object as a \<open>TCFHeader\<close>. An object that lacks a field or has it at another type
  is not a \<open>TCFHeader\<close>; the instance reports it like a parse failure.
\<close>

definition TCFHeader_json :: "TCFHeader \<Rightarrow> json" where
  "TCFHeader_json h = JObj
     [(''magic'', JStr (tcf_magic h)), (''version'', JNum (tcf_version h)),
      (''flags'', JNum (tcf_flags h)), (''originalSize'', JNum (tcf_originalSize h)),
      (''compressedSize'', JNum (tcf_compressedSize h)), (''checksum'', JStr (tcf_checksum h))]"

definition json_TCFHeader :: "json \<Rightarrow> TCFHeader option" where
  "json_TCFHeader j =
     (case (str_field j ''magic'', num_field j ''version'', num_field j ''flags'',
            num_field j ''originalSize'', num_field j ''compressedSize'', str_field j ''checksum'') of
        (Some m, Some v, Some f, Some os, Some cs, Some ck) \<Rightarrow>
          Some \<lparr> tcf_magic = m, tcf_version = v, tcf_flags = f, tcf_originalSize = os,
                 tcf_compressedSize = cs, tcf_checksum = ck \<rparr>
      | _ \<Rightarrow> None)"

definition enc_TCFHeader :: "TCFHeader \<Rightarrow> buffer" where
  "enc_TCFHeader h = utf8_bytes (stringify (TCFHeader_json h))"

definition dec_TCFHeader :: "buffer \<Rightarrow> TCFHeader option" where
  "dec_TCFHeader b = (case JSON_parse (utf8_string b) of None \<Rightarrow> None | Some j \<Rightarrow> json_TCFHeader j)"

section \<open>JavaScript numbers\<close>

text \<open>
  A JavaScript number is a finite value, an infinity or NaN. Finite values are held as
  rationals, and every arithmetic operation takes the rounding of its result as a
  parameter: \<open>rd\<close> maps the exact result to the double that the operation returns. Nothing
  is assumed of \<open>rd\<close> unless a theorem says so. The sign of zero is not kept (a division
  by zero takes its sign from the numerator alone), and no finite operation overflows to
  an infinity.
\<close>

datatype jsnum = Fin rat | PInf | NInf | NaN

definition jnum :: "int \<Rightarrow> jsnum" where
  "jnum i = Fin (of_int i)"

fun jneg :: "jsnum \<Rightarrow> jsnum" where
  "jneg (Fin a) = Fin (- a)"
| "jneg PInf = NInf"
| "jneg NInf = PInf"
| "jneg NaN = NaN"

fun jadd :: "(rat \<Rightarrow> rat) \<Rightarrow> jsnum \<Rightarrow> jsnum \<Rightarrow> jsnum" where
  "jadd rd (Fin a) (Fin b) = Fin (rd (a + b))"
| "jadd rd NaN y = NaN"
| "jadd rd x NaN = NaN"
| "jadd rd PInf NInf = NaN"
| "jadd rd NInf PInf = NaN"
| "jadd rd PInf y = PInf"
| "jadd rd NInf y = NInf"
| "jadd rd x PInf = PInf"
| "jadd rd x NInf = NInf"

definition jsub :: "(rat \<Rightarrow> rat) \<Rightarrow> jsnum \<Rightarrow> jsnum \<Rightarrow> jsnum" where
  "jsub rd x y = jadd rd x (jneg y)"

text \<open>The sign of a value that is not NaN: \<open>-1\<close>, \<open>0\<close> or \<open>1\<close>.\<close>

fun jsign :: "jsnum \<Rightarrow> int" where
  "jsign (Fin a) = (if a < 0 then - 1 else if a = 0 then 0 else 1)"
| "jsign PInf = 1"
| "jsign NInf = - 1"
| "jsign NaN = 0"

definition inf_of_sign :: "int \<Rightarrow> jsnum" where
  "inf_of_sign s = (if s < 0 then NInf else if s = 0 then NaN else PInf)"

fun jmul :: "(rat \<Rightarrow> rat) \<Rightarrow> jsnum \<Rightarrow> jsnum \<Rightarrow> jsnum" where
  "jmul rd (Fin a) (Fin b) = Fin (rd (a * b))"
| "jmul rd NaN y = NaN"
| "jmul rd x NaN = NaN"
| "jmul rd x y = inf_of_sign (jsign x * jsign y)"

fun jdiv :: "(rat \<Rightarrow> rat) \<Rightarrow> jsnum \<Rightarrow> jsnum \<Rightarrow> jsnum" where
  "jdiv rd (Fin a) (Fin b) = (if b = 0 then inf_of_sign (jsign (Fin a)) else Fin (rd (a / b)))"
| "jdiv rd NaN y = NaN"
| "jdiv rd x NaN = NaN"
| "jdiv rd (Fin a) y = Fin 0"
| "jdiv rd x (Fin b) = inf_of_sign (jsign x * (if b < 0 then - 1 else 1))"
| "jdiv rd x y = NaN"

text \<open>\<open>Math.round\<close>: the nearest integer, a tie going up.\<close>

fun Math_round :: "jsnum \<Rightarrow> jsnum" where
  "Math_round (Fin a) = Fin (of_int \<lfloor>a + 1 / 2\<rfloor>)"
| "Math_round x = x"

fun jless :: "jsnum \<Rightarrow> jsnum \<Rightarrow> bool" where
  "jless NaN y = False"
| "jless x NaN = False"
| "jless (Fin a) (Fin b) = (a < b)"
| "jless x PInf = (x \<noteq> PInf)"
| "jless NInf y = (y \<noteq> NInf)"
| "jless x y = False"

definition Math_min :: "jsnum \<Rightarrow> jsnum \<Rightarrow> jsnum" where
  "Math_min x y = (if x = NaN \<or> y = NaN then NaN else if jless y x then y else x)"

definition Math_max :: "jsnum \<Rightarrow> jsnum \<Rightarrow> jsnum" where
  "Math_max x y = (if x = NaN \<or> y = NaN then NaN else if jless x y then y else x)"

text \<open>
  A store into a \<open>Buffer\<close> element: NaN and the infinities become \<open>0\<close>, a finite value
  loses its fraction and is reduced modulo 256.
\<close>

fun to_uint8 :: "jsnum \<Rightarrow> byte" where
  "to_uint8 (Fin a) = of_int (if a < 0 then - \<lfloor>- a\<rfloor> else \<lfloor>a\<rfloor>)"
| "to_uint8 x = 0"

definition byte_num :: "byte \<Rightarrow> jsnum" where
  "byte_num b = Fin (of_nat (unat b))"

section \<open>Video codec\<close>

record VCFFrame =
  frame_type :: string
  frame_timestamp :: jsnum
  frame_size :: nat
  frame_offset :: nat
  frame_data :: buffer

text \<open>The object that \<open>compressPFrame\<close> builds and serialises.\<close>

record PFrameData =
  pf_type :: string
  pf_baseLength :: int
  pf_diff :: "jsnum list"
  pf_quality :: int

text \<open>
  \<open>compressPFrame\<close>. The loop runs over the first \<open>minLength\<close> positions of both frames,
  which is what \<open>zip\<close> pairs. \<open>enc\<close> is \<open>Buffer.from(JSON.stringify(_))\<close>.
\<close>

definition compressPFrame ::
  "(rat \<Rightarrow> rat) \<Rightarrow> (PFrameData \<Rightarrow> buffer) \<Rightarrow> buffer \<Rightarrow> buffer \<Rightarrow> int \<Rightarrow> buffer" where
  "compressPFrame rd enc currentFrame previousFrame quality =
     (let diff = map (\<lambda>(c, p). jnum (int (unat c) - int (unat p))) (zip currentFrame previousFrame);
          qualityFactor = jdiv rd (jnum quality) (jnum 100);
          compressed = map (\<lambda>d. Math_round (jmul rd d qualityFactor)) diff
      in enc \<lparr> pf_type = ''P'', pf_baseLength = int (length previousFrame),
                pf_diff = compressed, pf_quality = quality \<rparr>)"

text \<open>
  The frame type test \<open>i % gopSize === 0\<close>: the remainder of a non-negative \<open>i\<close> has the
  magnitude of \<open>i mod |gopSize|\<close>, and is NaN, so never \<open>0\<close>, for \<open>gopSize = 0\<close>.
\<close>

definition frameType_of :: "nat \<Rightarrow> int \<Rightarrow> string" where
  "frameType_of i gopSize =
     (if gopSize \<noteq> 0 \<and> int i mod \<bar>gopSize\<bar> = 0 then ''I'' else ''P'')"

text \<open>
  The loop of \<open>encodeFrames\<close> from index \<open>i\<close> on, over the contents of the frame files
  still to be read; \<open>previousFrame\<close> is \<open>None\<close> for \<open>null\<close>.
\<close>

fun encodeFrames_loop ::
  "(rat \<Rightarrow> rat) \<Rightarrow> (PFrameData \<Rightarrow> buffer) \<Rightarrow> jsnum \<Rightarrow> int \<Rightarrow> int \<Rightarrow> nat \<Rightarrow> buffer option
     \<Rightarrow> buffer list \<Rightarrow> VCFFrame list" where
  "encodeFrames_loop rd enc fps quality gopSize i previousFrame [] = []"
| "encodeFrames_loop rd enc fps quality gopSize i previousFrame (frameData # rest) =
     (let timestamp = jmul rd (jdiv rd (jnum (int i)) fps) (jnum 1000);
          frameType = frameType_of i gopSize;
          compressedData =
            (case previousFrame of
               None \<Rightarrow> frameData
             | Some prev \<Rightarrow>
                 if frameType = ''I'' then frameData
                 else compressPFrame rd enc frameData prev quality);
          frame = \<lparr> frame_type = frameType, frame_timestamp = timestamp,
                    frame_size = length compressedData, frame_offset = 0,
                    frame_data = compressedData \<rparr>
      in frame # encodeFrames_loop rd enc fps quality gopSize (Suc i)
                   (if frameType = ''I'' then Some frameData else previousFrame) rest)"

definition encodeFrames ::
  "(rat \<Rightarrow> rat) \<Rightarrow> (PFrameData \<Rightarrow> buffer) \<Rightarrow> buffer list \<Rightarrow> jsnum \<Rightarrow> int \<Rightarrow> int
     \<Rightarrow> VCFFrame list" where
  "encodeFrames rd enc frameFiles fps quality gopSize =
     encodeFrames_loop rd enc fps quality gopSize 0 None frameFiles"







record IndexEntry =
  ie_type :: string
  ie_timestamp :: jsnum
  ie_size :: nat
  ie_offset :: nat

text \<open>
  The frame index of \<open>serializeFrames\<close>: the \<open>map\<close> that copies type, timestamp and size,
  then the loop that sets the offsets, \<open>currentOffset\<close> being its running total.
\<close>

fun set_offsets :: "nat \<Rightarrow> VCFFrame list \<Rightarrow> IndexEntry list \<Rightarrow> IndexEntry list" where
  "set_offsets currentOffset (frame # frames) (entry # entries) =
     entry\<lparr>ie_offset := currentOffset\<rparr>
       # set_offsets (currentOffset + length (frame_data frame)) frames entries"
| "set_offsets currentOffset frames entries = entries"

definition frameIndex :: "VCFFrame list \<Rightarrow> IndexEntry list" where
  "frameIndex frames =
     set_offsets 0 frames
       (map (\<lambda>frame. \<lparr> ie_type = frame_type frame, ie_timestamp = frame_timestamp frame,
                        ie_size = frame_size frame, ie_offset = 0 \<rparr>) frames)"

definition allFrameData :: "VCFFrame list \<Rightarrow> buffer" where
  "allFrameData frames = concat (map frame_data frames)"

definition serializeFrames :: "(IndexEntry list \<Rightarrow> buffer) \<Rightarrow> VCFFrame list \<Rightarrow> error + buffer" where
  "serializeFrames enc frames =
     (let indexData = enc (frameIndex frames) in
      case writeUInt32LE (length indexData) of
        Inl e \<Rightarrow> Inl e
      | Inr indexSize \<Rightarrow> Inr (indexSize @ indexData @ allFrameData frames))"

definition deserializeFrames ::
  "(buffer \<Rightarrow> IndexEntry list option) \<Rightarrow> buffer \<Rightarrow> error + VCFFrame list" where
  "deserializeFrames dec compressedData =
     (if length compressedData < 4 then Inl TooSmall
      else case readUInt32LE compressedData 0 of
        Inl e \<Rightarrow> Inl e
      | Inr indexSize \<Rightarrow>
          if length compressedData < 4 + indexSize then Inl IndexSizeMismatch
          else (case dec (subarray compressedData 4 (4 + indexSize)) of
                  None \<Rightarrow> Inl SyntaxError
                | Some parsedIndex \<Rightarrow>
                    let frameDataStart = 4 + indexSize in
                    Inr (map (\<lambda>indexEntry.
                           \<lparr> frame_type = ie_type indexEntry,
                             frame_timestamp = ie_timestamp indexEntry,
                             frame_size = ie_size indexEntry,
                             frame_offset = ie_offset indexEntry,
                             frame_data = subarray compressedData
                               (frameDataStart + ie_offset indexEntry)
                               (frameDataStart + ie_offset indexEntry + ie_size indexEntry) \<rparr>)
                         parsedIndex)))"

text \<open>The P-frame object as JSON, for closed examples.\<close>

definition jsnum_json :: "jsnum \<Rightarrow> json" where
  "jsnum_json x = (case x of Fin a \<Rightarrow> JNum \<lfloor>a\<rfloor> | _ \<Rightarrow> JNull)"

definition PFrameData_json :: "PFrameData \<Rightarrow> json" where
  "PFrameData_json p = JObj
     [(''type'', JStr (pf_type p)), (''baseLength'', JNum (pf_baseLength p)),
      (''diff'', JArr (map jsnum_json (pf_diff p))), (''quality'', JNum (pf_quality p))]"

text \<open>
  The conversion of a parsed value to a number, as an arithmetic operator applies it:
  \<open>null\<close> and the empty string are \<open>0\<close>, \<open>true\<close> is \<open>1\<close>, a string of decimal digits with
  an optional minus sign is its value, the empty array is \<open>0\<close> and an array of one
  element converts as that element's text does. Strings in another notation (white
  space, a fraction, an exponent, hexadecimal) are outside the fragment and give NaN
  here.
\<close>

definition string_number :: "string \<Rightarrow> jsnum" where
  "string_number s =
     (let t = (case s of [] \<Rightarrow> [] | c # cs \<Rightarrow> if c = CHR ''-'' then cs else s) in
      if s = [] then Fin 0
      else if t \<noteq> [] \<and> list_all is_digit t
        then jnum ((if t = s then 1 else - 1) * digits_value t)
      else NaN)"

definition json_jsnum :: "json \<Rightarrow> jsnum" where
  "json_jsnum j =
     (case j of
        JNum i \<Rightarrow> jnum i
      | JNull \<Rightarrow> Fin 0
      | JBool b \<Rightarrow> (if b then Fin 1 else Fin 0)
      | JStr s \<Rightarrow> string_number s
      | JArr [] \<Rightarrow> Fin 0
      | JArr [JNum i] \<Rightarrow> jnum i
      | JArr [JStr s] \<Rightarrow> string_number s
      | JArr [JNull] \<Rightarrow> Fin 0
      | _ \<Rightarrow> NaN)"



definition enc_PFrameData :: "PFrameData \<Rightarrow> buffer" where
  "enc_PFrameData p = utf8_bytes (stringify (PFrameData_json p))"



section \<open>Image codec\<close>

text \<open>
  A \<open>Float32Array\<close> is a list of numbers. A store into it rounds a finite value to single
  precision: \<open>rs\<close> is that rounding, a parameter like \<open>rd\<close>. A read beyond the end of a
  buffer or array gives \<open>undefined\<close>, which every arithmetic operation here turns into NaN;
  a write beyond the end is ignored, as \<open>xs[i := v]\<close> does.
\<close>

type_synonym float32array = "jsnum list"

definition store32 :: "(rat \<Rightarrow> rat) \<Rightarrow> jsnum \<Rightarrow> jsnum" where
  "store32 rs x = (case x of Fin a \<Rightarrow> Fin (rs a) | _ \<Rightarrow> x)"

definition buf_get :: "buffer \<Rightarrow> nat \<Rightarrow> jsnum" where
  "buf_get b i = (if i < length b then byte_num (b ! i) else NaN)"

definition arr_get :: "float32array \<Rightarrow> nat \<Rightarrow> jsnum" where
  "arr_get a i = (if i < length a then a ! i else NaN)"

record ICFHeader =
  icf_magic :: string
  icf_version :: int
  icf_width :: nat
  icf_height :: nat
  icf_channels :: nat
  icf_colorSpace :: string
  icf_quality :: int
  icf_compressedSize :: int
  icf_checksum :: string

record ICFBlock =
  blk_x :: nat
  blk_y :: nat
  blk_width :: nat
  blk_height :: nat
  blk_data :: "jsnum list"

definition ICF_VERSION :: int where "ICF_VERSION = 1"
definition BLOCK_SIZE :: nat where "BLOCK_SIZE = 8"

text \<open>The body of the loop of \<open>rgbToYCoCg\<close>: the three values stored for pixel \<open>i\<close>.\<close>

definition rgbToYCoCg_pixel ::
  "(rat \<Rightarrow> rat) \<Rightarrow> (rat \<Rightarrow> rat) \<Rightarrow> buffer \<Rightarrow> nat \<Rightarrow> nat \<Rightarrow> jsnum list" where
  "rgbToYCoCg_pixel rd rs rgbData channels i =
     (let srcOffset = i * channels;
          r = jdiv rd (buf_get rgbData srcOffset) (Fin 255);
          g = jdiv rd (buf_get rgbData (srcOffset + 1)) (Fin 255);
          b = jdiv rd (buf_get rgbData (srcOffset + 2)) (Fin 255);
          co = jsub rd r b;
          t = jadd rd b (jdiv rd co (Fin 2));
          cg = jsub rd g t;
          y = jadd rd t (jdiv rd cg (Fin 2))
      in [store32 rs y, store32 rs co, store32 rs cg])"

definition rgbToYCoCg ::
  "(rat \<Rightarrow> rat) \<Rightarrow> (rat \<Rightarrow> rat) \<Rightarrow> buffer \<Rightarrow> nat \<Rightarrow> nat \<Rightarrow> nat \<Rightarrow> float32array" where
  "rgbToYCoCg rd rs rgbData width height channels =
     concat (map (rgbToYCoCg_pixel rd rs rgbData channels) [0 ..< width * height])"

text \<open>
  The body of the loop of \<open>ycocgToRgb\<close>: the writes of pixel \<open>i\<close> into \<open>rgbData\<close>, in the
  order of the source.
\<close>

definition clamp_byte :: "(rat \<Rightarrow> rat) \<Rightarrow> jsnum \<Rightarrow> byte" where
  "clamp_byte rd v =
     to_uint8 (Math_max (Fin 0) (Math_min (Fin 255) (Math_round (jmul rd v (Fin 255)))))"

definition ycocgToRgb_pixel ::
  "(rat \<Rightarrow> rat) \<Rightarrow> float32array \<Rightarrow> nat \<Rightarrow> buffer \<Rightarrow> nat \<Rightarrow> buffer" where
  "ycocgToRgb_pixel rd ycocgData channels rgbData i =
     (let srcOffset = i * 3;
          dstOffset = i * channels;
          y = arr_get ycocgData srcOffset;
          co = arr_get ycocgData (srcOffset + 1);
          cg = arr_get ycocgData (srcOffset + 2);
          t = jsub rd y (jdiv rd cg (Fin 2));
          g = jadd rd cg t;
          b = jsub rd t (jdiv rd co (Fin 2));
          r = jadd rd b co;
          rgbData1 = rgbData[dstOffset := clamp_byte rd r];
          rgbData2 = rgbData1[dstOffset + 1 := clamp_byte rd g];
          rgbData3 = rgbData2[dstOffset + 2 := clamp_byte rd b]
      in if channels > 3 then rgbData3[dstOffset + 3 := 255] else rgbData3)"

definition ycocgToRgb ::
  "(rat \<Rightarrow> rat) \<Rightarrow> float32array \<Rightarrow> nat \<Rightarrow> nat \<Rightarrow> nat \<Rightarrow> buffer" where
  "ycocgToRgb rd ycocgData width height channels =
     foldl (ycocgToRgb_pixel rd ycocgData channels)
       (replicate (width * height * channels) 0) [0 ..< width * height]"

text \<open>\<open>qFactor\<close>, as \<open>compressBlocks\<close> and \<open>decompressBlocks\<close> compute it from \<open>quality\<close>.\<close>

definition qFactor_of :: "(rat \<Rightarrow> rat) \<Rightarrow> int \<Rightarrow> jsnum" where
  "qFactor_of rd quality =
     (if quality < 50 then jdiv rd (Fin 50) (jnum quality)
      else jsub rd (Fin 2) (jdiv rd (jnum quality) (Fin 50)))"

definition channelQFactor_of :: "(rat \<Rightarrow> rat) \<Rightarrow> jsnum \<Rightarrow> nat \<Rightarrow> jsnum" where
  "channelQFactor_of rd qFactor channel =
     (if channel = 0 then qFactor else jmul rd qFactor (Fin (3 / 2)))"

text \<open>
  The positions the two nested loops visit: \<open>y\<close> and \<open>x\<close> in steps of \<open>BLOCK_SIZE\<close> below
  \<open>height\<close> and \<open>width\<close>, and the three channels at each, with the clipped block size.
\<close>

definition block_starts :: "nat \<Rightarrow> nat list" where
  "block_starts n = map (\<lambda>k. k * BLOCK_SIZE) [0 ..< (n + BLOCK_SIZE - 1) div BLOCK_SIZE]"

definition block_positions :: "nat \<Rightarrow> nat \<Rightarrow> (nat \<times> nat \<times> nat \<times> nat \<times> nat) list" where
  "block_positions width height =
     concat (map (\<lambda>y. concat (map (\<lambda>x.
       map (\<lambda>channel. (x, y, min BLOCK_SIZE (width - x), min BLOCK_SIZE (height - y), channel))
           [0, 1, 2]) (block_starts width))) (block_starts height))"

definition extractBlock ::
  "float32array \<Rightarrow> nat \<Rightarrow> nat \<Rightarrow> nat \<Rightarrow> nat \<Rightarrow> nat \<Rightarrow> nat \<Rightarrow> nat \<Rightarrow> float32array" where
  "extractBlock data width height x y blockWidth blockHeight channel =
     concat (map (\<lambda>by. map (\<lambda>bx. arr_get data (((y + by) * width + (x + bx)) * 3 + channel))
                            [0 ..< blockWidth]) [0 ..< blockHeight])"

text \<open>\<open>applyDCT\<close> and \<open>applyInverseDCT\<close> copy their input, element by element.\<close>

definition applyDCT :: "float32array \<Rightarrow> nat \<Rightarrow> nat \<Rightarrow> float32array" where
  "applyDCT blockData width height = map (\<lambda>i. blockData ! i) [0 ..< length blockData]"

definition applyInverseDCT :: "float32array \<Rightarrow> nat \<Rightarrow> nat \<Rightarrow> float32array" where
  "applyInverseDCT dctData width height = map (\<lambda>i. dctData ! i) [0 ..< length dctData]"

definition quantize :: "(rat \<Rightarrow> rat) \<Rightarrow> float32array \<Rightarrow> jsnum \<Rightarrow> nat \<Rightarrow> jsnum list" where
  "quantize rd dctData qFactor channel =
     (let channelQFactor = channelQFactor_of rd qFactor channel
      in map (\<lambda>v. Math_round (jmul rd v channelQFactor)) dctData)"

definition dequantize ::
  "(rat \<Rightarrow> rat) \<Rightarrow> (rat \<Rightarrow> rat) \<Rightarrow> jsnum list \<Rightarrow> jsnum \<Rightarrow> nat \<Rightarrow> float32array" where
  "dequantize rd rs quantizedData qFactor channel =
     (let channelQFactor = channelQFactor_of rd qFactor channel
      in map (\<lambda>v. store32 rs (jdiv rd v channelQFactor)) quantizedData)"

definition compressBlocks ::
  "(rat \<Rightarrow> rat) \<Rightarrow> float32array \<Rightarrow> nat \<Rightarrow> nat \<Rightarrow> int \<Rightarrow> ICFBlock list" where
  "compressBlocks rd ycocgData width height quality =
     (let qFactor = qFactor_of rd quality
      in map (\<lambda>(x, y, blockWidth, blockHeight, channel).
           let blockData = extractBlock ycocgData width height x y blockWidth blockHeight channel;
               dctData = applyDCT blockData blockWidth blockHeight;
               quantizedData = quantize rd dctData qFactor channel
           in \<lparr> blk_x = x, blk_y = y, blk_width = blockWidth, blk_height = blockHeight,
                blk_data = quantizedData \<rparr>)
         (block_positions width height))"

text \<open>\<open>placeBlock\<close>: the writes of one block into the plane buffer, row by row.\<close>

definition placeBlock ::
  "float32array \<Rightarrow> nat \<Rightarrow> nat \<Rightarrow> nat \<Rightarrow> nat \<Rightarrow> nat \<Rightarrow> nat \<Rightarrow> nat \<Rightarrow> float32array
     \<Rightarrow> float32array" where
  "placeBlock data width height x y blockWidth blockHeight channel blockData =
     foldl (\<lambda>d by. foldl (\<lambda>d' bx.
              d'[((y + by) * width + (x + bx)) * 3 + channel := arr_get blockData (by * blockWidth + bx)])
            d [0 ..< blockWidth])
       data [0 ..< blockHeight]"

text \<open>
  \<open>decompressBlocks\<close>. \<open>blocks[blockIndex++]\<close> is \<open>undefined\<close> once the serialized blocks
  run out, and reading \<open>block.data\<close> then throws a \<open>TypeError\<close>.
\<close>

fun decompress_loop ::
  "(rat \<Rightarrow> rat) \<Rightarrow> (rat \<Rightarrow> rat) \<Rightarrow> jsnum \<Rightarrow> nat \<Rightarrow> nat \<Rightarrow> float32array
     \<Rightarrow> (nat \<times> nat \<times> nat \<times> nat \<times> nat) list \<Rightarrow> ICFBlock list \<Rightarrow> error + float32array" where
  "decompress_loop rd rs qFactor width height ycocgData [] blocks = Inr ycocgData"
| "decompress_loop rd rs qFactor width height ycocgData (pos # rest) [] = Inl TypeError"
| "decompress_loop rd rs qFactor width height ycocgData
     ((x, y, blockWidth, blockHeight, channel) # rest) (block # blocks) =
     (let dequantizedData = dequantize rd rs (blk_data block) qFactor channel;
          spatialData = applyInverseDCT dequantizedData blockWidth blockHeight
      in decompress_loop rd rs qFactor width height
           (placeBlock ycocgData width height x y blockWidth blockHeight channel spatialData)
           rest blocks)"

definition decompressBlocks ::
  "(rat \<Rightarrow> rat) \<Rightarrow> (rat \<Rightarrow> rat) \<Rightarrow> ICFBlock list \<Rightarrow> nat \<Rightarrow> nat \<Rightarrow> int
     \<Rightarrow> error + float32array" where
  "decompressBlocks rd rs blocks width height quality =
     decompress_loop rd rs (qFactor_of rd quality) width height
       (replicate (width * height * 3) (Fin 0)) (block_positions width height) blocks"

text \<open>
  What \<open>sharp\<close> hands to \<open>ImageCodec.encode\<close>: the raw pixel buffer with its width, height
  and channel count. \<open>metadata.width\<close> and \<open>metadata.height\<close> are taken to be the same
  numbers; a missing one fails the test \<open>!metadata.width\<close> the way \<open>0\<close> does.
\<close>

record RawImage =
  img_data :: buffer
  img_width :: nat
  img_height :: nat
  img_channels :: nat

definition ImageCodec_encode ::
  "(buffer \<Rightarrow> string) \<Rightarrow> (rat \<Rightarrow> rat) \<Rightarrow> (rat \<Rightarrow> rat) \<Rightarrow> (ICFHeader \<Rightarrow> buffer)
     \<Rightarrow> (ICFBlock list \<Rightarrow> buffer) \<Rightarrow> RawImage \<Rightarrow> int \<Rightarrow> error + buffer" where
  "ImageCodec_encode sha256 rd rs enc serializeBlocks img quality =
     (if img_width img = 0 \<or> img_height img = 0 then Inl CannotDetermineDimensions
      else
        let ycocgData = rgbToYCoCg rd rs (img_data img) (img_width img) (img_height img)
                          (img_channels img);
            compressedBlocks = compressBlocks rd ycocgData (img_width img) (img_height img)
                                 quality;
            compressedData = serializeBlocks compressedBlocks;
            header = \<lparr> icf_magic = ICF_MAGIC, icf_version = ICF_VERSION,
                       icf_width = img_width img, icf_height = img_height img,
                       icf_channels = img_channels img, icf_colorSpace = ''YCoCg'',
                       icf_quality = quality,
                       icf_compressedSize = int (length compressedData),
                       icf_checksum = sha256 (img_data img) \<rparr>
        in ImageCodec_createContainer enc header compressedData)"

text \<open>
  \<open>ImageCodec.decode\<close>; \<open>deserializeBlocks\<close> is \<open>JSON.parse\<close> on the payload. The result is
  the quadruple of data, width, height and channels.
\<close>

definition ImageCodec_decode ::
  "(rat \<Rightarrow> rat) \<Rightarrow> (rat \<Rightarrow> rat) \<Rightarrow> (buffer \<Rightarrow> ICFHeader option)
     \<Rightarrow> (buffer \<Rightarrow> ICFBlock list option) \<Rightarrow> buffer \<Rightarrow> error + (buffer \<times> nat \<times> nat \<times> nat)" where
  "ImageCodec_decode rd rs dec deserializeBlocks icfData =
     (case ImageCodec_parseContainer dec icfData of
        Inl e \<Rightarrow> Inl e
      | Inr (header, compressedData) \<Rightarrow>
          if icf_magic header \<noteq> ICF_MAGIC then Inl InvalidMagic
          else if icf_version header \<noteq> ICF_VERSION then Inl UnsupportedVersion
          else (case deserializeBlocks compressedData of
                  None \<Rightarrow> Inl SyntaxError
                | Some compressedBlocks \<Rightarrow>
                    (case decompressBlocks rd rs compressedBlocks (icf_width header)
                            (icf_height header) (icf_quality header) of
                       Inl e \<Rightarrow> Inl e
                     | Inr ycocgData \<Rightarrow>
                         Inr (ycocgToRgb rd ycocgData (icf_width header) (icf_height header)
                                (icf_channels header),
                              icf_width header, icf_height header, icf_channels header))))"

text \<open>The image header and block list as JSON, for closed examples.\<close>

definition nat_field :: "json \<Rightarrow> string \<Rightarrow> nat option" where
  "nat_field j k = (case num_field j k of Some i \<Rightarrow> (if 0 \<le> i then Some (nat i) else None) | None \<Rightarrow> None)"

definition ICFHeader_json :: "ICFHeader \<Rightarrow> json" where
  "ICFHeader_json h = JObj
     [(''magic'', JStr (icf_magic h)), (''version'', JNum (icf_version h)),
      (''width'', JNum (int (icf_width h))), (''height'', JNum (int (icf_height h))),
      (''channels'', JNum (int (icf_channels h))), (''colorSpace'', JStr (icf_colorSpace h)),
      (''quality'', JNum (icf_quality h)), (''compressedSize'', JNum (icf_compressedSize h)),
      (''checksum'', JStr (icf_checksum h))]"

definition json_ICFHeader :: "json \<Rightarrow> ICFHeader option" where
  "json_ICFHeader j =
     (case (str_field j ''magic'', num_field j ''version'', nat_field j ''width'',
            nat_field j ''height'', nat_field j ''channels'', str_field j ''colorSpace'',
            num_field j ''quality'', num_field j ''compressedSize'', str_field j ''checksum'') of
        (Some m, Some v, Some w, Some h, Some c, Some cs, Some q, Some sz, Some ck) \<Rightarrow>
          Some \<lparr> icf_magic = m, icf_version = v, icf_width = w, icf_height = h,
                 icf_channels = c, icf_colorSpace = cs, icf_quality = q,
                 icf_compressedSize = sz, icf_checksum = ck \<rparr>
      | _ \<Rightarrow> None)"

definition enc_ICFHeader :: "ICFHeader \<Rightarrow> buffer" where
  "enc_ICFHeader h = utf8_bytes (stringify (ICFHeader_json h))"

definition dec_ICFHeader :: "buffer \<Rightarrow> ICFHeader option" where
  "dec_ICFHeader b = (case JSON_parse (utf8_string b) of None \<Rightarrow> None | Some j \<Rightarrow> json_ICFHeader j)"

definition ICFBlock_json :: "ICFBlock \<Rightarrow> json" where
  "ICFBlock_json b = JObj
     [(''x'', JNum (int (blk_x b))), (''y'', JNum (int (blk_y b))),
      (''width'', JNum (int (blk_width b))), (''height'', JNum (int (blk_height b))),
      (''data'', JArr (map jsnum_json (blk_data b)))]"

definition json_ICFBlock :: "json \<Rightarrow> ICFBlock option" where
  "json_ICFBlock j =
     (case (nat_field j ''x'', nat_field j ''y'', nat_field j ''width'', nat_field j ''height'',
            field j ''data'') of
        (Some x, Some y, Some w, Some h, Some (JArr ds)) \<Rightarrow>
          Some \<lparr> blk_x = x, blk_y = y, blk_width = w, blk_height = h,
                 blk_data = map json_jsnum ds \<rparr>
      | _ \<Rightarrow> None)"

fun all_some :: "'a option list \<Rightarrow> 'a list option" where
  "all_some [] = Some []"
| "all_some (None # xs) = None"
| "all_some (Some x # xs) = map_option ((#) x) (all_some xs)"

definition enc_ICFBlocks :: "ICFBlock list \<Rightarrow> buffer" where
  "enc_ICFBlocks bs = utf8_bytes (stringify (JArr (map ICFBlock_json bs)))"

definition dec_ICFBlocks :: "buffer \<Rightarrow> ICFBlock list option" where
  "dec_ICFBlocks b =
     (case JSON_parse (utf8_string b) of
        Some (JArr js) \<Rightarrow> all_some (map json_ICFBlock js)
      | _ \<Rightarrow> None)"

text \<open>
  A digest function given by a finite table of inputs and their digests, for closed
  examples: SHA-256 on the inputs of the example, with its published values.
\<close>

definition digest_table :: "(buffer \<times> string) list \<Rightarrow> buffer \<Rightarrow> string" where
  "digest_table table b = (case map_of table b of Some d \<Rightarrow> d | None \<Rightarrow> [])"

section \<open>Definitions used to state the properties\<close>

text \<open>
  The header length a container declares: the unsigned 32-bit value, lowest byte first,
  at offset 4.
\<close>

definition declared_header_length :: "buffer \<Rightarrow> nat" where
  "declared_header_length data = (case readUInt32LE data 4 of Inr n \<Rightarrow> n | Inl _ \<Rightarrow> 0)"

text \<open>
  What the round trip of the colour transform needs of the arithmetic: a rounding is
  accurate on \<open>[-bound, bound]\<close> when it moves no value there by more than \<open>2^-14\<close>.
  IEEE double precision is accurate on \<open>[-512, 512]\<close> (its error there is below \<open>2^-44\<close>)
  and single precision on \<open>[-4, 4]\<close> (below \<open>2^-22\<close>).
\<close>

definition accurate :: "(rat \<Rightarrow> rat) \<Rightarrow> rat \<Rightarrow> bool" where
  "accurate rnd bound = (\<forall>x. \<bar>x\<bar> \<le> bound \<longrightarrow> \<bar>rnd x - x\<bar> \<le> 1 / 16384)"

text \<open>A rounding for closed examples: to the nearest multiple of \<open>2^-p\<close>.\<close>

definition round_to_grid :: "nat \<Rightarrow> rat \<Rightarrow> rat" where
  "round_to_grid p x = of_int \<lfloor>x * 2 ^ p + 1 / 2\<rfloor> / 2 ^ p"



section \<open>Verified properties\<close>

subsection \<open>Run-length coding\<close>

text \<open>
  C1. The claim is that decoding the encoding of any byte sequence returns it, runs longer
  than 255 and the byte \<open>0xFF\<close> included. The code does not: a run of 256 bytes \<open>a\<close> is
  stored with the count \<open>256\<close>, of which the buffer keeps the low byte \<open>0\<close>, and
  decompresses to nothing; and a literal \<open>0xFF\<close> followed by two bytes is read back as a
  run. The theorem evaluates \<open>simpleCompress\<close> and \<open>simpleDecompress\<close> on both inputs.
\<close>

theorem simpleDecompress_simpleCompress_fails:
  "simpleCompress (replicate 256 0x61) = [0xFF, 0x61, 0x00]
   \<and> simpleDecompress (simpleCompress (replicate 256 0x61)) = []
   \<and> simpleCompress [0xFF, 0x41, 0x42] = [0xFF, 0x41, 0x42]
   \<and> simpleDecompress (simpleCompress [0xFF, 0x41, 0x42]) = replicate 66 0x41"
  by code_simp

subsection \<open>Container framing\<close>

lemma toString_ascii_bytes:
  "list_all (\<lambda>c. (of_char c :: nat) < 128) s \<Longrightarrow> toString_ascii (ascii_bytes s) = s"
  by (induction s) (auto simp: toString_ascii_def ascii_bytes_def unat_of_nat)

lemma le32_split:
  fixes n :: nat
  assumes "n < 2 ^ 32"
  shows "n mod 256 + 256 * (n div 256 mod 256) + 65536 * (n div 65536 mod 256)
         + 16777216 * (n div 16777216) = n"
proof -
  define a where "a = n div 256"
  define b where "b = a div 256"
  define c where "c = b div 256"
  have d2: "n div 65536 = b" unfolding a_def b_def by (simp add: div_mult2_eq[symmetric])
  have d3: "n div 16777216 = c" unfolding a_def b_def c_def by (simp add: div_mult2_eq[symmetric])
  have n: "n = n mod 256 + 256 * a" unfolding a_def by simp
  have a: "a = a mod 256 + 256 * b" unfolding b_def by simp
  have b: "b = b mod 256 + 256 * c" unfolding c_def by simp
  show ?thesis
    unfolding d2 d3 a_def[symmetric] using n a b by simp
qed

lemma le32_roundtrip:
  assumes "n < 2 ^ 32"
  shows "unat (of_nat n :: byte) + 256 * unat (of_nat (n div 256) :: byte)
         + 65536 * unat (of_nat (n div 65536) :: byte)
         + 16777216 * unat (of_nat (n div 16777216) :: byte) = n"
proof -
  have "n div 16777216 < 256" using assms by simp
  then have "n div 16777216 mod 256 = n div 16777216" by simp
  then show ?thesis using le32_split[OF assms] by (simp add: unat_of_nat)
qed

lemma readUInt32LE_writeUInt32LE:
  assumes "writeUInt32LE n = Inr w" and "length m = 4"
  shows "readUInt32LE (m @ w @ rest) 4 = Inr n" and "length w = 4"
proof -
  have n: "n < 2 ^ 32"
    and w: "w = [of_nat n, of_nat (n div 256), of_nat (n div 65536), of_nat (n div 16777216)]"
    using assms(1) by (auto simp: writeUInt32LE_def split: if_splits)
  show "length w = 4" by (simp add: w)
  have "(m @ w @ rest) ! 4 = of_nat n" "(m @ w @ rest) ! 5 = of_nat (n div 256)"
    "(m @ w @ rest) ! 6 = of_nat (n div 65536)" "(m @ w @ rest) ! 7 = of_nat (n div 16777216)"
    using assms(2) by (simp_all add: nth_append w)
  then show "readUInt32LE (m @ w @ rest) 4 = Inr n"
    using le32_roundtrip[OF n] assms(2) by (simp add: readUInt32LE_def w)
qed

lemma parseContainer_createContainer:
  assumes "length (enc h) < 2 ^ 32" and "dec (enc h) = Some h"
    and "length M = 4" and "list_all (\<lambda>c. (of_char c :: nat) < 128) M"
  shows "\<exists>c. createContainer M enc h p = Inr c \<and> parseContainer M dec c = Inr (h, p)"
proof -
  obtain w where w: "writeUInt32LE (length (enc h)) = Inr w"
    using assms(1) by (auto simp: writeUInt32LE_def)
  let ?m = "ascii_bytes M"
  have lm: "length ?m = 4" using assms(3) by (simp add: ascii_bytes_def)
  have r: "readUInt32LE (?m @ w @ enc h @ p) 4 = Inr (length (enc h))" and lw: "length w = 4"
    using readUInt32LE_writeUInt32LE[OF w lm] by auto
  have c: "createContainer M enc h p = Inr (?m @ w @ enc h @ p)"
    using w by (simp add: createContainer_def)
  have "parseContainer M dec (?m @ w @ enc h @ p) = Inr (h, p)"
    using r lm lw assms(2) toString_ascii_bytes[OF assms(4)]
    by (simp add: parseContainer_def subarray_def subarray_from_def)
  with c show ?thesis by simp
qed

lemma utf8_string_bytes: "utf8_string (utf8_bytes s) = s"
  by (induction s) (simp_all add: utf8_string_def utf8_bytes_def unat_of_nat)

lemma length_utf8_bytes: "length (utf8_bytes s) = length s"
  by (simp add: utf8_bytes_def)

lemma json_TCFHeader_json: "json_TCFHeader (TCFHeader_json h) = Some h"
  by (simp add: json_TCFHeader_def TCFHeader_json_def str_field_def num_field_def field_def)

lemma dec_enc_TCFHeader:
  "JSON_parse (stringify (TCFHeader_json h)) = Some (TCFHeader_json h) \<Longrightarrow>
   dec_TCFHeader (enc_TCFHeader h) = Some h"
  by (simp add: dec_TCFHeader_def enc_TCFHeader_def utf8_string_bytes json_TCFHeader_json)

lemma length_enc_TCFHeader: "length (enc_TCFHeader h) = length (stringify (TCFHeader_json h))"
  by (simp add: enc_TCFHeader_def length_utf8_bytes)


text \<open>
  C5. Framing round trip of the text codec: for every header that the JSON step carries
  through unchanged (\<open>dec (enc header) = Some header\<close>) and whose JSON text is shorter
  than \<open>2^32\<close> bytes, and for every payload, \<open>createContainer\<close> succeeds and
  \<open>parseContainer\<close> of its result returns the same header and the same payload.
\<close>

theorem TextCodec_container_roundtrip:
  assumes "length (enc header) < 2 ^ 32" and "dec (enc header) = Some header"
  shows "(case TextCodec_createContainer enc header payload of
            Inl e \<Rightarrow> Inl e
          | Inr container \<Rightarrow> TextCodec_parseContainer dec container) = Inr (header, payload)"
proof -
  have "length TCF_MAGIC = 4" "list_all (\<lambda>c. (of_char c :: nat) < 128) TCF_MAGIC"
    by (simp_all add: TCF_MAGIC_def)
  with assms parseContainer_createContainer[of enc header dec TCF_MAGIC payload]
  show ?thesis
    by (auto simp: TextCodec_createContainer_def TextCodec_parseContainer_def)
qed

theorem TextCodec_container_roundtrip_witness:
  "length (enc_TCFHeader \<lparr> tcf_magic = ''TCF1'', tcf_version = 1, tcf_flags = 0,
       tcf_originalSize = 2, tcf_compressedSize = 2,
       tcf_checksum = ''8f434346648f6b96df89dda901c5176b10a6d83961dd3c1ac88b59b2dc327aa4'' \<rparr>)
     < 2 ^ 32
   \<and> dec_TCFHeader (enc_TCFHeader \<lparr> tcf_magic = ''TCF1'', tcf_version = 1, tcf_flags = 0,
       tcf_originalSize = 2, tcf_compressedSize = 2,
       tcf_checksum = ''8f434346648f6b96df89dda901c5176b10a6d83961dd3c1ac88b59b2dc327aa4'' \<rparr>)
     = Some \<lparr> tcf_magic = ''TCF1'', tcf_version = 1, tcf_flags = 0,
       tcf_originalSize = 2, tcf_compressedSize = 2,
       tcf_checksum = ''8f434346648f6b96df89dda901c5176b10a6d83961dd3c1ac88b59b2dc327aa4'' \<rparr>
   \<and> (case TextCodec_createContainer enc_TCFHeader \<lparr> tcf_magic = ''TCF1'', tcf_version = 1,
          tcf_flags = 0, tcf_originalSize = 2, tcf_compressedSize = 2,
          tcf_checksum = ''8f434346648f6b96df89dda901c5176b10a6d83961dd3c1ac88b59b2dc327aa4'' \<rparr>
          [0x68, 0x69] of
         Inl e \<Rightarrow> Inl e
       | Inr container \<Rightarrow> TextCodec_parseContainer dec_TCFHeader container)
     = Inr (\<lparr> tcf_magic = ''TCF1'', tcf_version = 1, tcf_flags = 0,
          tcf_originalSize = 2, tcf_compressedSize = 2,
          tcf_checksum = ''8f434346648f6b96df89dda901c5176b10a6d83961dd3c1ac88b59b2dc327aa4'' \<rparr>,
        [0x68, 0x69])"
  (is "length (enc_TCFHeader ?h) < _ \<and> ?rt \<and> ?concl")
proof -
  have "length (stringify (TCFHeader_json ?h)) = 152"
    by code_simp
  then have len: "length (enc_TCFHeader ?h) < 2 ^ 32"
    by (simp only: length_enc_TCFHeader) simp
  have "JSON_parse (stringify (TCFHeader_json ?h)) = Some (TCFHeader_json ?h)"
    by code_simp
  then have rt: ?rt by (rule dec_enc_TCFHeader)
  have concl: ?concl
    using len rt
    by (rule TextCodec_container_roundtrip
          [where enc = enc_TCFHeader and dec = dec_TCFHeader and header = ?h])
  show ?thesis by (intro conjI len rt concl)
qed

lemma readUInt32LE_ok: "off + 4 \<le> length b \<Longrightarrow> \<exists>n. readUInt32LE b off = Inr n"
  by (simp add: readUInt32LE_def)

lemma readUInt32LE_prefix:
  "off + 4 \<le> k \<Longrightarrow> k \<le> length b \<Longrightarrow> readUInt32LE (take k b @ p) off = readUInt32LE b off"
  by (simp add: readUInt32LE_def nth_append)

lemma parseContainer_outcomes:
  "((\<exists>e. parseContainer MAGIC dec data = Inl e) \<longleftrightarrow>
      (length data < 8 \<or> toString_ascii (take 4 data) \<noteq> MAGIC
       \<or> length data - 8 < declared_header_length data
       \<or> dec (take (declared_header_length data) (drop 8 data)) = None))
   \<and> (\<forall>header payload. parseContainer MAGIC dec data = Inr (header, payload) \<longrightarrow>
         dec (take (declared_header_length data) (drop 8 data)) = Some header
         \<and> payload = drop (8 + declared_header_length data) data
         \<and> (\<forall>other. parseContainer MAGIC dec (take (8 + declared_header_length data) data @ other)
                        = Inr (header, other)))"
proof (cases "length data < 8")
  case True
  then show ?thesis by (simp add: parseContainer_def)
next
  case False
  then obtain n where n: "readUInt32LE data 4 = Inr n"
    using readUInt32LE_ok[of 4 data] by auto
  then have d: "declared_header_length data = n" by (simp add: declared_header_length_def)
  show ?thesis
  proof (cases "length data < 8 + n")
    case True
    then show ?thesis using False n d
      by (auto simp: parseContainer_def subarray_def subarray_from_def)
  next
    case big: False
    have pre: "readUInt32LE (take (8 + n) data @ other) 4 = Inr n" for other
      using readUInt32LE_prefix[of 4 "8 + n" data other] big n by simp
    have len: "min (length data) (8 + n) = 8 + n" using big by simp
    show ?thesis using False n d big pre len
      by (auto simp: parseContainer_def subarray_def subarray_from_def drop_take split: option.splits)
  qed
qed

lemma ascii_bytes_toString_ascii:
  "list_all (\<lambda>b. b < 128) d \<Longrightarrow> ascii_bytes (toString_ascii d) = d"
proof (induction d)
  case Nil
  then show ?case by (simp add: ascii_bytes_def toString_ascii_def)
next
  case (Cons x d)
  then have x: "unat x < 128" by (simp add: word_less_nat_alt)
  then have "(of_nat (unat x mod 128 mod 256) :: byte) = x" by simp
  then show ?case using Cons by (simp add: ascii_bytes_def toString_ascii_def)
qed

lemma ascii_chars_of_bytes:
  "list_all (\<lambda>b. b < 128) (ascii_bytes s) \<Longrightarrow> list_all (\<lambda>c. (of_char c :: nat) < 128) s"
proof (induction s)
  case Nil
  then show ?case by simp
next
  case (Cons c s)
  have "(of_char c :: nat) < 256" by simp
  then have "unat (of_nat (of_char c) :: byte) = of_char c" by (simp add: unat_of_nat)
  then show ?case using Cons by (simp add: ascii_bytes_def word_less_nat_alt)
qed

lemma magic_bytes_iff:
  assumes "list_all (\<lambda>b. b < 128) d"
  shows "toString_ascii d = MAGIC \<longleftrightarrow> d = ascii_bytes MAGIC"
proof
  assume "toString_ascii d = MAGIC"
  then show "d = ascii_bytes MAGIC"
    using ascii_bytes_toString_ascii[OF assms] by simp
next
  assume d: "d = ascii_bytes MAGIC"
  then have "list_all (\<lambda>c. (of_char c :: nat) < 128) MAGIC"
    using assms ascii_chars_of_bytes by simp
  then show "toString_ascii d = MAGIC"
    unfolding d by (rule toString_ascii_bytes)
qed

text \<open>
  C6, as the code has it by design. For every buffer whose first four bytes are 7-bit
  ASCII, unpacking fails in exactly four situations: the buffer has fewer than 8 bytes;
  its 4-byte magic tag differs from the format's constant; the declared header length
  exceeds the number of bytes after the first 8; or \<open>JSON.parse\<close> rejects the header
  bytes. For every buffer, the first, third and fourth situation make unpacking fail,
  and a successful result is the parsed header with all bytes after the header as the
  payload; the payload is not looked at: any other bytes in its place come back
  unchanged beside the same header. The statement holds for every magic constant, so
  for the text, image and video codecs alike.
\<close>

theorem parseContainer_unpack_cases:
  "(list_all (\<lambda>b. b < 128) (take 4 data) \<longrightarrow>
      ((\<exists>e. parseContainer MAGIC dec data = Inl e) \<longleftrightarrow>
         (length data < 8 \<or> take 4 data \<noteq> ascii_bytes MAGIC
          \<or> length data - 8 < declared_header_length data
          \<or> dec (take (declared_header_length data) (drop 8 data)) = None)))
   \<and> (length data < 8 \<or> length data - 8 < declared_header_length data
        \<or> dec (take (declared_header_length data) (drop 8 data)) = None
       \<longrightarrow> (\<exists>e. parseContainer MAGIC dec data = Inl e))
   \<and> (\<forall>header payload. parseContainer MAGIC dec data = Inr (header, payload) \<longrightarrow>
         dec (take (declared_header_length data) (drop 8 data)) = Some header
         \<and> payload = drop (8 + declared_header_length data) data
         \<and> (\<forall>other. parseContainer MAGIC dec (take (8 + declared_header_length data) data @ other)
                        = Inr (header, other)))"
proof -
  note raw = parseContainer_outcomes[of MAGIC dec data]
  have first: "(\<exists>e. parseContainer MAGIC dec data = Inl e) \<longleftrightarrow>
         (length data < 8 \<or> take 4 data \<noteq> ascii_bytes MAGIC
          \<or> length data - 8 < declared_header_length data
          \<or> dec (take (declared_header_length data) (drop 8 data)) = None)"
    if "list_all (\<lambda>b. b < 128) (take 4 data)"
    using raw magic_bytes_iff[OF that, of MAGIC] by simp
  show ?thesis
    using first raw by blast
qed

theorem parseContainer_unpack_cases_witness:
  "list_all (\<lambda>b. b < 128) (take 4 (ascii_bytes ''TCF1'' @ [152 :: byte, 0, 0, 0]))
   \<and> parseContainer TCF_MAGIC dec_TCFHeader
     (ascii_bytes ''TCF1'' @ [152, 0, 0, 0]
      @ enc_TCFHeader \<lparr> tcf_magic = ''TCF1'', tcf_version = 1, tcf_flags = 0,
          tcf_originalSize = 2, tcf_compressedSize = 2,
          tcf_checksum = ''8f434346648f6b96df89dda901c5176b10a6d83961dd3c1ac88b59b2dc327aa4'' \<rparr>
      @ [0x68, 0x69])
   = Inr (\<lparr> tcf_magic = ''TCF1'', tcf_version = 1, tcf_flags = 0,
          tcf_originalSize = 2, tcf_compressedSize = 2,
          tcf_checksum = ''8f434346648f6b96df89dda901c5176b10a6d83961dd3c1ac88b59b2dc327aa4'' \<rparr>,
        [0x68, 0x69])
   \<and> parseContainer TCF_MAGIC dec_TCFHeader
     (take (8 + declared_header_length
        (ascii_bytes ''TCF1'' @ [152, 0, 0, 0]
         @ enc_TCFHeader \<lparr> tcf_magic = ''TCF1'', tcf_version = 1, tcf_flags = 0,
             tcf_originalSize = 2, tcf_compressedSize = 2,
             tcf_checksum = ''8f434346648f6b96df89dda901c5176b10a6d83961dd3c1ac88b59b2dc327aa4'' \<rparr>
         @ [0x68, 0x69]))
        (ascii_bytes ''TCF1'' @ [152, 0, 0, 0]
         @ enc_TCFHeader \<lparr> tcf_magic = ''TCF1'', tcf_version = 1, tcf_flags = 0,
             tcf_originalSize = 2, tcf_compressedSize = 2,
             tcf_checksum = ''8f434346648f6b96df89dda901c5176b10a6d83961dd3c1ac88b59b2dc327aa4'' \<rparr>
         @ [0x68, 0x69])
      @ [0x79, 0x6F])
   = Inr (\<lparr> tcf_magic = ''TCF1'', tcf_version = 1, tcf_flags = 0,
          tcf_originalSize = 2, tcf_compressedSize = 2,
          tcf_checksum = ''8f434346648f6b96df89dda901c5176b10a6d83961dd3c1ac88b59b2dc327aa4'' \<rparr>,
        [0x79, 0x6F])"
  (is "?ascii \<and> parseContainer _ _ (_ @ _ @ enc_TCFHeader ?h @ ?p) = _ \<and> _")
proof -
  let ?data = "ascii_bytes ''TCF1'' @ [152, 0, 0, 0] @ enc_TCFHeader ?h @ ?p"
  have n: "length (stringify (TCFHeader_json ?h)) = 152"
    by code_simp
  then have len: "length (enc_TCFHeader ?h) < 2 ^ 32"
    by (simp only: length_enc_TCFHeader) simp
  have "JSON_parse (stringify (TCFHeader_json ?h)) = Some (TCFHeader_json ?h)"
    by code_simp
  then have rt: "dec_TCFHeader (enc_TCFHeader ?h) = Some ?h"
    by (rule dec_enc_TCFHeader)
  have w: "writeUInt32LE (length (enc_TCFHeader ?h)) = Inr [152, 0, 0, 0]"
    by (simp add: length_enc_TCFHeader n writeUInt32LE_def)
  have "createContainer TCF_MAGIC enc_TCFHeader ?h ?p = Inr ?data"
    by (simp only: createContainer_def Let_def w sum.case TCF_MAGIC_def)
  moreover have "\<exists>c. createContainer TCF_MAGIC enc_TCFHeader ?h ?p = Inr c
      \<and> parseContainer TCF_MAGIC dec_TCFHeader c = Inr (?h, ?p)"
    using len rt
    by (rule parseContainer_createContainer
          [where enc = enc_TCFHeader and dec = dec_TCFHeader and h = ?h and M = TCF_MAGIC])
       (simp_all add: TCF_MAGIC_def)
  ultimately have ok: "parseContainer TCF_MAGIC dec_TCFHeader ?data = Inr (?h, ?p)"
    by (metis sum.inject(2))
  have "ascii_bytes ''TCF1'' = [0x54, 0x43, 0x46, 0x31]"
    by code_simp
  then have ascii: ?ascii by simp
  then have "list_all (\<lambda>b. b < 128) (take 4 ?data)"
    by (simp add: ascii_bytes_def)
  from parseContainer_unpack_cases[of ?data TCF_MAGIC dec_TCFHeader] this ok ascii
  show ?thesis by blast
qed

lemma toString_ascii_TCF1: "toString_ascii [0x54, 0x43, 0x46, 0x31] = ''TCF1''"
  by code_simp

lemma ascii_bytes_TCF1: "ascii_bytes ''TCF1'' = [0x54, 0x43, 0x46, 0x31]"
  by code_simp

lemma dec_TCFHeader_empty: "dec_TCFHeader [] = None"
  by code_simp

text \<open>
  C6, as the claim states it, fails: a buffer of the magic tag and a declared header
  length of zero is in none of the three situations, yet unpacking does not return a
  header, because \<open>JSON.parse\<close> throws on the empty header text.
\<close>

theorem parseContainer_three_cases_counterexample:
  "\<not> length [0x54, 0x43, 0x46, 0x31, 0, 0, 0, 0 :: byte] < 8
   \<and> toString_ascii (take 4 [0x54, 0x43, 0x46, 0x31, 0, 0, 0, 0]) = TCF_MAGIC
   \<and> take 4 [0x54, 0x43, 0x46, 0x31, 0, 0, 0, 0] = ascii_bytes TCF_MAGIC
   \<and> \<not> length [0x54, 0x43, 0x46, 0x31, 0, 0, 0, 0 :: byte] - 8
         < declared_header_length [0x54, 0x43, 0x46, 0x31, 0, 0, 0, 0]
   \<and> TextCodec_parseContainer dec_TCFHeader [0x54, 0x43, 0x46, 0x31, 0, 0, 0, 0]
       = Inl SyntaxError"
  by (simp add: TextCodec_parseContainer_def parseContainer_def TCF_MAGIC_def
      declared_header_length_def readUInt32LE_def subarray_def
      toString_ascii_TCF1 ascii_bytes_TCF1 dec_TCFHeader_empty)


subsection \<open>Video: frame types\<close>

lemma encodeFrames_loop_length:
  "length (encodeFrames_loop rd enc fps quality gopSize i prev files) = length files"
  by (induction files arbitrary: i prev) (simp_all add: Let_def)

lemma encodeFrames_loop_type:
  "k < length files \<Longrightarrow>
   frame_type (encodeFrames_loop rd enc fps quality gopSize i prev files ! k)
     = frameType_of (i + k) gopSize"
proof (induction files arbitrary: i prev k)
  case Nil
  then show ?case by simp
next
  case (Cons f files)
  show ?case
  proof (cases k)
    case 0
    then show ?thesis by (simp add: Let_def)
  next
    case (Suc k')
    with Cons.prems have "k' < length files" by simp
    from Cons.IH[OF this] Suc show ?thesis by (simp add: Let_def)
  qed
qed

text \<open>
  C7. For every list of frame files and every \<open>gopSize \<ge> 1\<close>, \<open>encodeFrames\<close> produces one
  frame per file, gives frame \<open>i\<close> the type \<open>I\<close> exactly when \<open>i mod gopSize = 0\<close> and the type
  \<open>P\<close> exactly when it is not; frame \<open>0\<close> is of type \<open>I\<close>.
\<close>

theorem encodeFrames_gop_structure:
  assumes "1 \<le> gopSize" and "i < length frameFiles"
  shows "length (encodeFrames rd enc frameFiles fps quality gopSize) = length frameFiles
       \<and> (frame_type (encodeFrames rd enc frameFiles fps quality gopSize ! i) = ''I''
            \<longleftrightarrow> int i mod gopSize = 0)
       \<and> (frame_type (encodeFrames rd enc frameFiles fps quality gopSize ! i) = ''P''
            \<longleftrightarrow> int i mod gopSize \<noteq> 0)
       \<and> frame_type (encodeFrames rd enc frameFiles fps quality gopSize ! 0) = ''I''"
proof -
  let ?frames = "encodeFrames rd enc frameFiles fps quality gopSize"
  have pos: "0 < length frameFiles" using assms(2) by (cases frameFiles) simp_all
  have ti: "frame_type (?frames ! i) = frameType_of i gopSize"
    using encodeFrames_loop_type[OF assms(2), of rd enc fps quality gopSize 0 None]
    by (simp add: encodeFrames_def)
  have t0: "frame_type (?frames ! 0) = frameType_of 0 gopSize"
    using encodeFrames_loop_type[OF pos, of rd enc fps quality gopSize 0 None]
    by (simp add: encodeFrames_def)
  have len: "length ?frames = length frameFiles"
    by (simp add: encodeFrames_def encodeFrames_loop_length)
  have g: "gopSize \<noteq> 0" "\<bar>gopSize\<bar> = gopSize" using assms(1) by simp_all
  show ?thesis
    unfolding ti t0 len by (simp add: frameType_of_def g)
qed

theorem encodeFrames_gop_structure_witness:
  "(1 :: int) \<le> 3 \<and> 4 < length [[1], [2], [3], [4], [5 :: byte]]
   \<and> frame_type (encodeFrames id enc_PFrameData [[1], [2], [3], [4], [5]] (Fin 25) 85 3 ! 3) = ''I''
   \<and> frame_type (encodeFrames id enc_PFrameData [[1], [2], [3], [4], [5]] (Fin 25) 85 3 ! 4) = ''P''"
  using encodeFrames_gop_structure
          [of 3 3 "[[1], [2], [3], [4], [5]]" id enc_PFrameData "Fin 25" 85]
        encodeFrames_gop_structure
          [of 3 4 "[[1], [2], [3], [4], [5]]" id enc_PFrameData "Fin 25" 85]
  by simp

subsection \<open>Video: frame index\<close>

lemma set_offsets_length:
  "length (set_offsets c frames entries) = length entries"
  by (induction c frames entries rule: set_offsets.induct) simp_all

lemma set_offsets_sizes:
  "map ie_size (set_offsets c frames entries) = map ie_size entries"
  by (induction c frames entries rule: set_offsets.induct) simp_all

lemma set_offsets_nth:
  "length entries = length frames \<Longrightarrow> i < length frames \<Longrightarrow>
   ie_offset (set_offsets c frames entries ! i)
     = c + sum_list (map (\<lambda>f. length (frame_data f)) (take i frames))"
proof (induction c frames entries arbitrary: i rule: set_offsets.induct)
  case (1 c frame frames entry entries)
  show ?case
  proof (cases i)
    case 0
    then show ?thesis by simp
  next
    case (Suc j)
    with 1 show ?thesis by simp
  qed
qed simp_all

lemma frameIndex_length: "length (frameIndex frames) = length frames"
  by (simp add: frameIndex_def set_offsets_length)

lemma frameIndex_offset:
  "i < length frames \<Longrightarrow>
   ie_offset (frameIndex frames ! i) = sum_list (map (\<lambda>f. length (frame_data f)) (take i frames))"
  by (simp add: frameIndex_def set_offsets_nth)

lemma frameIndex_sizes: "map ie_size (frameIndex frames) = map frame_size frames"
  by (simp add: frameIndex_def set_offsets_sizes comp_def)

lemma frameIndex_size:
  "i < length frames \<Longrightarrow> ie_size (frameIndex frames ! i) = frame_size (frames ! i)"
  using frameIndex_sizes[of frames] frameIndex_length[of frames]
  by (metis length_map nth_map)

lemma encodeFrames_loop_size:
  "f \<in> set (encodeFrames_loop rd enc fps quality gopSize i prev files) \<Longrightarrow>
   frame_size f = length (frame_data f)"
  by (induction files arbitrary: i prev) (auto simp: Let_def)

lemma encodeFrames_loop_nonempty:
  assumes "\<forall>b \<in> set files. b \<noteq> []" and "\<forall>p. enc p \<noteq> []"
    and "f \<in> set (encodeFrames_loop rd enc fps quality gopSize i prev files)"
  shows "frame_data f \<noteq> []"
  using assms
  by (induction files arbitrary: i prev)
     (auto simp: Let_def compressPFrame_def split: option.splits if_splits)

lemma take_Suc_sum:
  "i < length xs \<Longrightarrow> sum_list (map g (take (Suc i) xs)) = sum_list (map g (take i xs)) + g (xs ! i)"
  by (simp add: take_Suc_conv_app_nth)

text \<open>
  C8, as the code has it. For the frames that \<open>encodeFrames\<close> produces and the index that
  \<open>serializeFrames\<close> builds from them: the index has one entry per frame; each entry's
  offset is the sum of the data lengths of the earlier frames; the sizes in the index add
  up to the length of the concatenated frame data; each offset is the previous offset
  plus the previous size (no gap, no overlap); the offsets never decrease, and an offset
  is strictly greater than the one before it exactly when the frame before it has data
  of non-zero length. So the offsets are strictly increasing when no frame file is empty
  and the JSON text of a P-frame is not empty.
\<close>

theorem frame_index_consistent:
  "(let frames = encodeFrames rd enc frameFiles fps quality gopSize;
        index = frameIndex frames
    in length index = length frames
     \<and> (\<forall>i < length index.
           ie_offset (index ! i) = sum_list (map (\<lambda>f. length (frame_data f)) (take i frames)))
     \<and> sum_list (map ie_size index) = length (allFrameData frames)
     \<and> (\<forall>i. Suc i < length index \<longrightarrow>
           ie_offset (index ! Suc i) = ie_offset (index ! i) + ie_size (index ! i))
     \<and> (\<forall>i. Suc i < length index \<longrightarrow>
           ie_offset (index ! i) \<le> ie_offset (index ! Suc i)
           \<and> (ie_offset (index ! i) < ie_offset (index ! Suc i)
                \<longleftrightarrow> frame_data (frames ! i) \<noteq> []))
     \<and> ((\<forall>b \<in> set frameFiles. b \<noteq> []) \<and> (\<forall>p. enc p \<noteq> []) \<longrightarrow>
          (\<forall>i. Suc i < length index \<longrightarrow> ie_offset (index ! i) < ie_offset (index ! Suc i))))"
proof -
  define frames where "frames = encodeFrames rd enc frameFiles fps quality gopSize"
  define index where "index = frameIndex frames"
  have sz: "frame_size f = length (frame_data f)" if "f \<in> set frames" for f
    using that encodeFrames_loop_size unfolding frames_def encodeFrames_def by blast
  have len: "length index = length frames"
    by (simp add: index_def frameIndex_length)
  have off: "ie_offset (index ! i) = sum_list (map (\<lambda>f. length (frame_data f)) (take i frames))"
    if "i < length index" for i
    using that len by (simp add: index_def frameIndex_offset)
  have m: "map frame_size frames = map (\<lambda>f. length (frame_data f)) frames"
    by (rule map_ext) (simp add: sz)
  have "sum_list (map ie_size index) = sum_list (map frame_size frames)"
    by (simp add: index_def frameIndex_sizes)
  also have "\<dots> = sum_list (map (\<lambda>f. length (frame_data f)) frames)"
    by (simp only: m)
  also have "\<dots> = length (allFrameData frames)"
    by (simp add: allFrameData_def length_concat comp_def)
  finally have total: "sum_list (map ie_size index) = length (allFrameData frames)" .
  have isz: "ie_size (index ! i) = length (frame_data (frames ! i))" if "i < length frames" for i
    using that sz[of "frames ! i"] by (simp add: index_def frameIndex_size)
  have contiguous: "ie_offset (index ! Suc i) = ie_offset (index ! i) + ie_size (index ! i)"
    if "Suc i < length index" for i
  proof -
    have i: "i < length frames" "i < length index" "Suc i < length index"
      using that len by simp_all
    show ?thesis
      unfolding off[OF i(2)] off[OF i(3)] isz[OF i(1)] by (rule take_Suc_sum[OF i(1)])
  qed
  have step: "ie_offset (index ! i) \<le> ie_offset (index ! Suc i)
      \<and> (ie_offset (index ! i) < ie_offset (index ! Suc i) \<longleftrightarrow> frame_data (frames ! i) \<noteq> [])"
    if i: "Suc i < length index" for i
  proof -
    have il: "i < length frames" using i len by simp
    show ?thesis using contiguous[OF i] isz[OF il] by simp
  qed
  have strict: "ie_offset (index ! i) < ie_offset (index ! Suc i)"
    if ne: "\<forall>b \<in> set frameFiles. b \<noteq> []" "\<forall>p. enc p \<noteq> []" and i: "Suc i < length index" for i
  proof -
    have il: "i < length frames" using i len by simp
    then have "frames ! i \<in> set frames" by simp
    then have "frame_data (frames ! i) \<noteq> []"
      using encodeFrames_loop_nonempty[OF ne] unfolding frames_def encodeFrames_def by blast
    then show ?thesis using contiguous[OF i] isz[OF il] by simp
  qed
  show ?thesis
    unfolding Let_def frames_def[symmetric] index_def[symmetric]
    using len off total contiguous step strict by blast
qed

lemma enc_PFrameData_nonempty: "enc_PFrameData p \<noteq> []"
  by (simp add: enc_PFrameData_def utf8_bytes_def PFrameData_json_def)

theorem frame_index_consistent_witness:
  "ie_offset (frameIndex (encodeFrames id enc_PFrameData [[1, 2, 3], [4, 5], [6]] (Fin 25) 85 2) ! 1)
     < ie_offset (frameIndex (encodeFrames id enc_PFrameData [[1, 2, 3], [4, 5], [6]] (Fin 25) 85 2) ! 2)"
proof -
  have ne: "\<forall>b \<in> set [[1, 2, 3], [4, 5], [6 :: byte]]. b \<noteq> []" by simp
  have len: "length (frameIndex (encodeFrames id enc_PFrameData [[1, 2, 3], [4, 5], [6]] (Fin 25) 85 2)) = 3"
    by (simp only: frameIndex_length encodeFrames_def encodeFrames_loop_length) simp
  from frame_index_consistent[of id enc_PFrameData "[[1, 2, 3], [4, 5], [6]]" "Fin 25" 85 2]
  have "\<forall>i. Suc i < length (frameIndex (encodeFrames id enc_PFrameData [[1, 2, 3], [4, 5], [6]] (Fin 25) 85 2)) \<longrightarrow>
          ie_offset (frameIndex (encodeFrames id enc_PFrameData [[1, 2, 3], [4, 5], [6]] (Fin 25) 85 2) ! i)
          < ie_offset (frameIndex (encodeFrames id enc_PFrameData [[1, 2, 3], [4, 5], [6]] (Fin 25) 85 2) ! Suc i)"
    unfolding Let_def using ne enc_PFrameData_nonempty by blast
  from this[rule_format, of 1] len show ?thesis by (simp add: numeral_2_eq_2)
qed

text \<open>
  C8, as the claim states it, fails: \<open>encodeFrames\<close> copies an empty frame file into an
  I-frame with no data, and the next offset is then equal to it, not greater.
\<close>

theorem frame_index_strict_counterexample:
  "\<not> ie_offset (frameIndex (encodeFrames id enc_PFrameData [[], [1]] (Fin 25) 85 1) ! 0)
       < ie_offset (frameIndex (encodeFrames id enc_PFrameData [[], [1]] (Fin 25) 85 1) ! 1)"
  by (simp add: encodeFrames_def frameIndex_def frameType_of_def Let_def)

subsection \<open>Video: decoding P-frames\<close>












subsection \<open>Image: alpha channel\<close>

lemma length_ycocgToRgb_pixel:
  "length (ycocgToRgb_pixel rd ycocgData channels rgbData i) = length rgbData"
  by (simp add: ycocgToRgb_pixel_def Let_def)

lemma ycocgToRgb_pixel_alpha_new:
  "i * 4 + 3 < length rgbData \<Longrightarrow>
   ycocgToRgb_pixel rd ycocgData 4 rgbData i ! (i * 4 + 3) = 255"
  by (simp add: ycocgToRgb_pixel_def Let_def)

lemma ycocgToRgb_pixel_alpha_old:
  "j < i \<Longrightarrow> ycocgToRgb_pixel rd ycocgData 4 rgbData i ! (j * 4 + 3) = rgbData ! (j * 4 + 3)"
  by (simp add: ycocgToRgb_pixel_def Let_def)

lemma ycocgToRgb_prefix_alpha:
  "k \<le> n \<Longrightarrow>
   length (foldl (ycocgToRgb_pixel rd ycocgData 4) (replicate (n * 4) 0) [0 ..< k]) = n * 4
   \<and> (\<forall>j < k. foldl (ycocgToRgb_pixel rd ycocgData 4) (replicate (n * 4) 0) [0 ..< k] ! (j * 4 + 3) = 255)"
proof (induction k)
  case 0
  then show ?case by simp
next
  case (Suc k)
  let ?buf = "foldl (ycocgToRgb_pixel rd ycocgData 4) (replicate (n * 4) 0) [0 ..< k]"
  from Suc have len: "length ?buf = n * 4" and old: "\<forall>j < k. ?buf ! (j * 4 + 3) = 255"
    by simp_all
  have step: "foldl (ycocgToRgb_pixel rd ycocgData 4) (replicate (n * 4) 0) [0 ..< Suc k]
              = ycocgToRgb_pixel rd ycocgData 4 ?buf k"
    by simp
  have inr: "k * 4 + 3 < length ?buf" using Suc.prems len by simp
  show ?case
  proof (intro conjI allI impI)
    show "length (foldl (ycocgToRgb_pixel rd ycocgData 4) (replicate (n * 4) 0) [0 ..< Suc k]) = n * 4"
      unfolding step by (simp add: length_ycocgToRgb_pixel len)
  next
    fix j assume "j < Suc k"
    then consider "j < k" | "j = k" by linarith
    then show "foldl (ycocgToRgb_pixel rd ycocgData 4) (replicate (n * 4) 0) [0 ..< Suc k] ! (j * 4 + 3) = 255"
    proof cases
      case 1
      then show ?thesis unfolding step using old by (simp add: ycocgToRgb_pixel_alpha_old)
    next
      case 2
      then show ?thesis unfolding step using inr by (simp add: ycocgToRgb_pixel_alpha_new)
    qed
  qed
qed

lemma ycocgToRgb_alpha:
  "i < width * height \<Longrightarrow> ycocgToRgb rd ycocgData width height 4 ! (i * 4 + 3) = 255"
  using ycocgToRgb_prefix_alpha[of "width * height" "width * height" rd ycocgData]
  by (simp add: ycocgToRgb_def)

lemma rgbToYCoCg_pixel_ignores_alpha:
  assumes "length a = length b" and "\<forall>k < length a. k mod 4 \<noteq> 3 \<longrightarrow> a ! k = b ! k"
  shows "rgbToYCoCg_pixel rd rs a 4 i = rgbToYCoCg_pixel rd rs b 4 i"
proof -
  have "buf_get a (i * 4 + c) = buf_get b (i * 4 + c)" if "c < 3" for c
  proof -
    have "(i * 4 + c) mod 4 \<noteq> 3" using that by simp
    then show ?thesis using assms by (simp add: buf_get_def)
  qed
  from this[of 0] this[of 1] this[of 2] show ?thesis
    by (simp add: rgbToYCoCg_pixel_def)
qed

text \<open>
  C10. For a four-channel image, \<open>ycocgToRgb\<close> writes \<open>255\<close> into the alpha byte of every
  pixel, whatever the coefficients; so does every successful \<open>ImageCodec.decode\<close> of a
  container whose header says four channels. The alpha values of the input do not reach
  the coefficients: \<open>rgbToYCoCg\<close> gives the same result on two buffers that differ only in
  their alpha bytes.
\<close>

theorem alpha_channel_is_255:
  "(\<forall>i < width * height. ycocgToRgb rd ycocgData width height 4 ! (i * 4 + 3) = 255)
   \<and> (\<forall>data w h. ImageCodec_decode rd rs dec deserializeBlocks icfData = Inr (data, w, h, 4)
         \<longrightarrow> (\<forall>i < w * h. data ! (i * 4 + 3) = 255))
   \<and> (length a = length b \<and> (\<forall>k < length a. k mod 4 \<noteq> 3 \<longrightarrow> a ! k = b ! k)
         \<longrightarrow> rgbToYCoCg rd rs a width height 4 = rgbToYCoCg rd rs b width height 4)"
proof (intro conjI)
  show "\<forall>i < width * height. ycocgToRgb rd ycocgData width height 4 ! (i * 4 + 3) = 255"
    by (simp add: ycocgToRgb_alpha)
  show "\<forall>data w h. ImageCodec_decode rd rs dec deserializeBlocks icfData = Inr (data, w, h, 4)
         \<longrightarrow> (\<forall>i < w * h. data ! (i * 4 + 3) = 255)"
    by (auto simp: ImageCodec_decode_def ycocgToRgb_alpha
             split: sum.splits prod.splits if_splits option.splits)
  show "length a = length b \<and> (\<forall>k < length a. k mod 4 \<noteq> 3 \<longrightarrow> a ! k = b ! k)
         \<longrightarrow> rgbToYCoCg rd rs a width height 4 = rgbToYCoCg rd rs b width height 4"
  proof
    assume h: "length a = length b \<and> (\<forall>k < length a. k mod 4 \<noteq> 3 \<longrightarrow> a ! k = b ! k)"
    have "rgbToYCoCg_pixel rd rs a 4 = rgbToYCoCg_pixel rd rs b 4"
    proof
      fix i
      show "rgbToYCoCg_pixel rd rs a 4 i = rgbToYCoCg_pixel rd rs b 4 i"
        using h by (intro rgbToYCoCg_pixel_ignores_alpha) simp_all
    qed
    then show "rgbToYCoCg rd rs a width height 4 = rgbToYCoCg rd rs b width height 4"
      by (simp add: rgbToYCoCg_def)
  qed
qed

theorem alpha_channel_is_255_witness:
  "ycocgToRgb id [Fin (1 / 4), Fin 1, Fin (- 1 / 2)] 1 1 4 ! 3 = 255"
  using alpha_channel_is_255[of 1 1 id "[Fin (1 / 4), Fin 1, Fin (- 1 / 2)]"]
  by simp

subsection \<open>Image: colour transform\<close>

lemma accurateD:
  assumes "accurate rnd bound" and "- bound \<le> x" and "x \<le> bound"
  shows "x - 1 / 16384 \<le> rnd x" and "rnd x \<le> x + 1 / 16384"
proof -
  have "\<bar>x\<bar> \<le> bound" using assms(2,3) by (simp add: abs_le_iff)
  with assms(1) have "\<bar>rnd x - x\<bar> \<le> 1 / 16384" by (simp add: accurate_def)
  then have "rnd x - x \<le> 1 / 16384 \<and> - (rnd x - x) \<le> 1 / 16384"
    by (simp only: abs_le_iff)
  then show "x - 1 / 16384 \<le> rnd x" and "rnd x \<le> x + 1 / 16384"
    by linarith+
qed

lemma ycocg_numbers:
  fixes R G B :: rat
  assumes rd: "accurate rd 512" and rs: "accurate rs 4"
    and R: "0 \<le> R" "R \<le> 255" and G: "0 \<le> G" "G \<le> 255" and B: "0 \<le> B" "B \<le> 255"
  defines "r \<equiv> rd (R / 255)" and "g \<equiv> rd (G / 255)" and "b \<equiv> rd (B / 255)"
  defines "co \<equiv> rd (r - b)"
  defines "t \<equiv> rd (b + rd (co / 2))"
  defines "cg \<equiv> rd (g - t)"
  defines "y \<equiv> rd (t + rd (cg / 2))"
  defines "t' \<equiv> rd (rs y - rd (rs cg / 2))"
  defines "g' \<equiv> rd (rs cg + t')"
  defines "b' \<equiv> rd (t' - rd (rs co / 2))"
  defines "r' \<equiv> rd (b' + rs co)"
  shows "R - 1 / 2 \<le> rd (r' * 255) \<and> rd (r' * 255) < R + 1 / 2"
    and "G - 1 / 2 \<le> rd (g' * 255) \<and> rd (g' * 255) < G + 1 / 2"
    and "B - 1 / 2 \<le> rd (b' * 255) \<and> rd (b' * 255) < B + 1 / 2"
proof -
  note a = accurateD[OF rd] and s = accurateD[OF rs]
  have r: "R / 255 - 1 / 16384 \<le> r" "r \<le> R / 255 + 1 / 16384"
    unfolding r_def using a[of "R / 255"] R by auto
  have g: "G / 255 - 1 / 16384 \<le> g" "g \<le> G / 255 + 1 / 16384"
    unfolding g_def using a[of "G / 255"] G by auto
  have b: "B / 255 - 1 / 16384 \<le> b" "b \<le> B / 255 + 1 / 16384"
    unfolding b_def using a[of "B / 255"] B by auto
  have co: "(R - B) / 255 - 3 / 16384 \<le> co" "co \<le> (R - B) / 255 + 3 / 16384"
    unfolding co_def using a[of "r - b"] r b R B by (auto simp: field_simps)
  define hco where "hco = rd (co / 2)"
  have hco: "(R - B) / 510 - 5 / 32768 \<le> hco" "hco \<le> (R - B) / 510 + 5 / 32768"
    unfolding hco_def using a[of "co / 2"] co R B by (auto simp: field_simps)
  have t: "(R + B) / 510 - 9 / 32768 \<le> t" "t \<le> (R + B) / 510 + 9 / 32768"
    unfolding t_def hco_def[symmetric] using a[of "b + hco"] b hco R B by (auto simp: field_simps)
  have cg: "G / 255 - (R + B) / 510 - 13 / 32768 \<le> cg" "cg \<le> G / 255 - (R + B) / 510 + 13 / 32768"
    unfolding cg_def using a[of "g - t"] g t R G B by (auto simp: field_simps)
  define hcg where "hcg = rd (cg / 2)"
  have hcg: "G / 510 - (R + B) / 1020 - 17 / 65536 \<le> hcg" "hcg \<le> G / 510 - (R + B) / 1020 + 17 / 65536"
    unfolding hcg_def using a[of "cg / 2"] cg R G B by (auto simp: field_simps)
  have y: "G / 510 + (R + B) / 1020 - 39 / 65536 \<le> y" "y \<le> G / 510 + (R + B) / 1020 + 39 / 65536"
    unfolding y_def hcg_def[symmetric] using a[of "t + hcg"] t hcg R G B by (auto simp: field_simps)
  define Y where "Y = rs y"
  define CO where "CO = rs co"
  define CG where "CG = rs cg"
  have Y: "G / 510 + (R + B) / 1020 - 43 / 65536 \<le> Y" "Y \<le> G / 510 + (R + B) / 1020 + 43 / 65536"
    unfolding Y_def using s[of y] y R G B by (auto simp: field_simps)
  have CO: "(R - B) / 255 - 4 / 16384 \<le> CO" "CO \<le> (R - B) / 255 + 4 / 16384"
    unfolding CO_def using s[of co] co R B by (auto simp: field_simps)
  have CG: "G / 255 - (R + B) / 510 - 15 / 32768 \<le> CG" "CG \<le> G / 255 - (R + B) / 510 + 15 / 32768"
    unfolding CG_def using s[of cg] cg R G B by (auto simp: field_simps)
  define k1 where "k1 = rd (CG / 2)"
  have k1: "G / 510 - (R + B) / 1020 - 19 / 65536 \<le> k1" "k1 \<le> G / 510 - (R + B) / 1020 + 19 / 65536"
    unfolding k1_def using a[of "CG / 2"] CG R G B by (auto simp: field_simps)
  have t': "(R + B) / 510 - 66 / 65536 \<le> t'" "t' \<le> (R + B) / 510 + 66 / 65536"
    unfolding t'_def Y_def[symmetric] CG_def[symmetric] k1_def[symmetric]
    using a[of "Y - k1"] Y k1 R G B by (auto simp: field_simps)
  have g': "G / 255 - 100 / 65536 \<le> g'" "g' \<le> G / 255 + 100 / 65536"
    unfolding g'_def CG_def[symmetric]
    using a[of "CG + t'"] CG t' R G B by (auto simp: field_simps)
  define k2 where "k2 = rd (CO / 2)"
  have k2: "(R - B) / 510 - 12 / 65536 \<le> k2" "k2 \<le> (R - B) / 510 + 12 / 65536"
    unfolding k2_def using a[of "CO / 2"] CO R B by (auto simp: field_simps)
  have b': "B / 255 - 82 / 65536 \<le> b'" "b' \<le> B / 255 + 82 / 65536"
    unfolding b'_def CO_def[symmetric] k2_def[symmetric]
    using a[of "t' - k2"] t' k2 R B by (auto simp: field_simps)
  have r': "R / 255 - 102 / 65536 \<le> r'" "r' \<le> R / 255 + 102 / 65536"
    unfolding r'_def CO_def[symmetric]
    using a[of "b' + CO"] b' CO R B by (auto simp: field_simps)
  show "R - 1 / 2 \<le> rd (r' * 255) \<and> rd (r' * 255) < R + 1 / 2"
    using a[of "r' * 255"] r' R by (auto simp: field_simps)
  show "G - 1 / 2 \<le> rd (g' * 255) \<and> rd (g' * 255) < G + 1 / 2"
    using a[of "g' * 255"] g' G by (auto simp: field_simps)
  show "B - 1 / 2 \<le> rd (b' * 255) \<and> rd (b' * 255) < B + 1 / 2"
    using a[of "b' * 255"] b' B by (auto simp: field_simps)
qed


lemma length_concat_triples:
  "(\<And>j. length (f j) = 3) \<Longrightarrow> length (concat (map f [0 ..< n])) = n * 3"
  by (induction n) simp_all

lemma nth_concat_triples:
  assumes "\<And>j. length (f j) = 3" and "i < n" and "k < 3"
  shows "concat (map f [0 ..< n]) ! (i * 3 + k) = f i ! k"
  using assms(2)
proof (induction n)
  case 0
  then show ?case by simp
next
  case (Suc n)
  have len: "length (concat (map f [0 ..< n])) = n * 3"
    using assms(1) by (rule length_concat_triples)
  show ?case
  proof (cases "i < n")
    case True
    then have "i * 3 + k < n * 3" using assms(3) by simp
    then show ?thesis using Suc.IH[OF True] len by (simp add: nth_append)
  next
    case False
    with Suc.prems have "i = n" by simp
    then show ?thesis using len assms(3) by (simp add: nth_append)
  qed
qed

lemma length_rgbToYCoCg_pixel: "length (rgbToYCoCg_pixel rd rs rgbData channels i) = 3"
  by (simp add: rgbToYCoCg_pixel_def Let_def)

lemma arr_get_rgbToYCoCg:
  assumes "i < width * height" and "k < 3"
  shows "arr_get (rgbToYCoCg rd rs rgbData width height channels) (i * 3 + k)
         = rgbToYCoCg_pixel rd rs rgbData channels i ! k"
proof -
  have "length (rgbToYCoCg rd rs rgbData width height channels) = width * height * 3"
    unfolding rgbToYCoCg_def by (rule length_concat_triples) (rule length_rgbToYCoCg_pixel)
  moreover have "i * 3 + k < width * height * 3" using assms by simp
  ultimately show ?thesis
    unfolding arr_get_def rgbToYCoCg_def
    using nth_concat_triples[of "rgbToYCoCg_pixel rd rs rgbData channels" i "width * height" k]
      assms length_rgbToYCoCg_pixel
    by simp
qed

lemma clamp_byte_exact:
  assumes "of_nat n - 1 / 2 \<le> rd (v * 255)" and "rd (v * 255) < of_nat n + 1 / 2" and "n \<le> 255"
  shows "clamp_byte rd (Fin v) = of_nat n"
proof -
  have "\<lfloor>rd (v * 255) + 1 / 2\<rfloor> = int n"
    using assms(1,2) by (intro floor_unique) simp_all
  then have "Math_round (jmul rd (Fin v) (Fin 255)) = Fin (of_nat n)"
    by simp
  moreover have "Math_max (Fin 0) (Math_min (Fin 255) (Fin (of_nat n))) = Fin (of_nat n)"
    using assms(3) by (auto simp: Math_max_def Math_min_def)
  ultimately show ?thesis by (simp add: clamp_byte_def)
qed

lemma ycocgToRgb_pixel_roundtrip:
  assumes rd: "accurate rd 512" and rs: "accurate rs 4"
    and inr: "i * channels + 2 < length rgbData"
    and arr: "\<And>k. k < 3 \<Longrightarrow> arr_get ycocgData (i * 3 + k) = rgbToYCoCg_pixel rd rs rgbData channels i ! k"
  shows "ycocgToRgb_pixel rd ycocgData channels buf i
         = (let buf3 = buf[i * channels := rgbData ! (i * channels),
                           i * channels + 1 := rgbData ! (i * channels + 1),
                           i * channels + 2 := rgbData ! (i * channels + 2)]
            in if channels > 3 then buf3[i * channels + 3 := 255] else buf3)"
proof -
  define R where "R = unat (rgbData ! (i * channels))"
  define G where "G = unat (rgbData ! (i * channels + 1))"
  define B where "B = unat (rgbData ! (i * channels + 2))"
  have le: "R \<le> 255" "G \<le> 255" "B \<le> 255"
    unfolding R_def G_def B_def
    using unsigned_less[of "rgbData ! (i * channels)", where 'a = nat]
      unsigned_less[of "rgbData ! (i * channels + 1)", where 'a = nat]
      unsigned_less[of "rgbData ! (i * channels + 2)", where 'a = nat] by simp_all
  have bounds: "0 \<le> (of_nat R :: rat)" "(of_nat R :: rat) \<le> 255" "0 \<le> (of_nat G :: rat)"
    "(of_nat G :: rat) \<le> 255" "0 \<le> (of_nat B :: rat)" "(of_nat B :: rat) \<le> 255"
    using le by simp_all
  note num = ycocg_numbers[OF rd rs bounds]
  have get: "buf_get rgbData (i * channels) = Fin (of_nat R)"
    "buf_get rgbData (i * channels + 1) = Fin (of_nat G)"
    "buf_get rgbData (i * channels + 2) = Fin (of_nat B)"
    using inr by (simp_all add: buf_get_def byte_num_def R_def G_def B_def)
  have a0: "arr_get ycocgData (i * 3) = rgbToYCoCg_pixel rd rs rgbData channels i ! 0"
    using arr[of 0] by simp
  have a1: "arr_get ycocgData (i * 3 + 1) = rgbToYCoCg_pixel rd rs rgbData channels i ! 1"
    using arr[of 1] by simp
  have a2: "arr_get ycocgData (i * 3 + 2) = rgbToYCoCg_pixel rd rs rgbData channels i ! 2"
    using arr[of 2] by simp
  have w: "word_of_nat R = rgbData ! (i * channels)" "word_of_nat G = rgbData ! (i * channels + 1)"
    "word_of_nat B = rgbData ! (i * channels + 2)"
    by (simp_all add: R_def G_def B_def)
  show ?thesis
    unfolding ycocgToRgb_pixel_def Let_def a0 a1 a2
    unfolding rgbToYCoCg_pixel_def Let_def get
    using clamp_byte_exact[where rd = rd and n = R, OF conjunct1[OF num(1)] conjunct2[OF num(1)] le(1)]
      clamp_byte_exact[where rd = rd and n = G, OF conjunct1[OF num(2)] conjunct2[OF num(2)] le(2)]
      clamp_byte_exact[where rd = rd and n = B, OF conjunct1[OF num(3)] conjunct2[OF num(3)] le(3)]
    by (simp add: jsub_def store32_def w)
qed


lemma ycocgToRgb_prefix_roundtrip:
  assumes rd: "accurate rd 512" and rs: "accurate rs 4"
    and ch: "3 \<le> channels" and len: "length rgbData = width * height * channels"
  defines "ycocgData \<equiv> rgbToYCoCg rd rs rgbData width height channels"
  shows "k \<le> width * height \<Longrightarrow>
    length (foldl (ycocgToRgb_pixel rd ycocgData channels)
              (replicate (width * height * channels) 0) [0 ..< k]) = width * height * channels
    \<and> (\<forall>i < k. \<forall>c < 3.
          foldl (ycocgToRgb_pixel rd ycocgData channels)
            (replicate (width * height * channels) 0) [0 ..< k] ! (i * channels + c)
          = rgbData ! (i * channels + c))"
proof (induction k)
  case 0
  then show ?case by simp
next
  case (Suc k)
  let ?F = "\<lambda>k. foldl (ycocgToRgb_pixel rd ycocgData channels)
                  (replicate (width * height * channels) 0) [0 ..< k]"
  from Suc have lenF: "length (?F k) = width * height * channels"
    and old: "\<forall>i < k. \<forall>c < 3. ?F k ! (i * channels + c) = rgbData ! (i * channels + c)"
    by simp_all
  have kn: "k < width * height" using Suc.prems by simp
  have "Suc k * channels \<le> width * height * channels"
    using kn by (intro mult_le_mono1) simp
  then have top: "k * channels + channels \<le> width * height * channels" by simp
  have inr: "k * channels + 2 < length rgbData" using top ch len by simp
  have arr: "arr_get ycocgData (k * 3 + c) = rgbToYCoCg_pixel rd rs rgbData channels k ! c"
    if "c < 3" for c
    unfolding ycocgData_def using kn that by (rule arr_get_rgbToYCoCg)
  have step: "?F (Suc k) =
      (let buf3 = (?F k)[k * channels := rgbData ! (k * channels),
                         k * channels + 1 := rgbData ! (k * channels + 1),
                         k * channels + 2 := rgbData ! (k * channels + 2)]
       in if channels > 3 then buf3[k * channels + 3 := 255] else buf3)"
    using ycocgToRgb_pixel_roundtrip[OF rd rs inr arr, of "?F k"] by simp
  show ?case
  proof (intro conjI allI impI)
    show "length (?F (Suc k)) = width * height * channels"
      unfolding step by (simp add: lenF Let_def)
  next
    fix i c :: nat
    assume i: "i < Suc k" and c: "c < 3"
    show "?F (Suc k) ! (i * channels + c) = rgbData ! (i * channels + c)"
    proof (cases "i < k")
      case True
      then have "Suc i * channels \<le> k * channels"
        by (intro mult_le_mono1) simp
      then have "i * channels + c < k * channels" using c ch by simp
      then show ?thesis
        unfolding step using old True c by (simp add: Let_def)
    next
      case False
      with i have ik: "i = k" by simp
      have "k * channels + c < length (?F k)" using top c ch lenF by simp
      moreover have "c = 0 \<or> c = 1 \<or> c = 2" using c by auto
      ultimately show ?thesis
        unfolding step ik by (auto simp: Let_def nth_list_update)
    qed
  qed
qed

text \<open>
  C9. For every image of three or more channels, converting the pixel buffer with
  \<open>rgbToYCoCg\<close> and the untouched coefficients back with \<open>ycocgToRgb\<close> returns the R, G
  and B bytes of every pixel exactly. The arithmetic is floating point: the statement
  holds for every double rounding \<open>rd\<close> and single rounding \<open>rs\<close> that are accurate in the
  sense above, the accumulated error of \<open>r * 255\<close> staying below one half before
  \<open>Math.round\<close>.
\<close>

theorem ycocg_roundtrip_exact:
  assumes "accurate rd 512" and "accurate rs 4"
    and "3 \<le> channels" and "length rgbData = width * height * channels"
  shows "length (ycocgToRgb rd (rgbToYCoCg rd rs rgbData width height channels)
                   width height channels) = length rgbData
    \<and> (\<forall>i < width * height. \<forall>c < 3.
          ycocgToRgb rd (rgbToYCoCg rd rs rgbData width height channels)
            width height channels ! (i * channels + c)
          = rgbData ! (i * channels + c))"
  using ycocgToRgb_prefix_roundtrip[OF assms, of "width * height"] assms(4)
  by (simp add: ycocgToRgb_def)

lemma accurate_round_to_grid: "accurate (round_to_grid 24) bound"
proof -
  have "\<bar>round_to_grid 24 x - x\<bar> \<le> 1 / 16384" for x
  proof -
    define y where "y = x * 2 ^ 24"
    define d where "d = of_int \<lfloor>y + 1 / 2\<rfloor> - y"
    have "of_int \<lfloor>y + 1 / 2\<rfloor> \<le> y + 1 / 2" "y + 1 / 2 < of_int \<lfloor>y + 1 / 2\<rfloor> + 1"
      by linarith+
    then have d: "- (1 / 2) \<le> d" "d \<le> 1 / 2" unfolding d_def by linarith+
    have "round_to_grid 24 x - x = d / 16777216"
      by (simp add: round_to_grid_def d_def y_def diff_divide_distrib)
    then show ?thesis using d by linarith
  qed
  then show ?thesis by (simp add: accurate_def)
qed

theorem ycocg_roundtrip_exact_witness:
  "ycocgToRgb (round_to_grid 24)
     (rgbToYCoCg (round_to_grid 24) (round_to_grid 24) [200, 17, 99] 1 1 3) 1 1 3 ! 0 = 200
   \<and> ycocgToRgb (round_to_grid 24)
     (rgbToYCoCg (round_to_grid 24) (round_to_grid 24) [200, 17, 99] 1 1 3) 1 1 3 ! 1 = 17
   \<and> ycocgToRgb (round_to_grid 24)
     (rgbToYCoCg (round_to_grid 24) (round_to_grid 24) [200, 17, 99] 1 1 3) 1 1 3 ! 2 = 99"
proof -
  have len: "length [200, 17, 99 :: byte] = 1 * 1 * 3" by simp
  have ch: "(3 :: nat) \<le> 3" by simp
  from ycocg_roundtrip_exact[OF accurate_round_to_grid accurate_round_to_grid ch len]
  have "\<forall>c < 3. ycocgToRgb (round_to_grid 24)
     (rgbToYCoCg (round_to_grid 24) (round_to_grid 24) [200, 17, 99] 1 1 3) 1 1 3 ! (0 * 3 + c)
     = [200, 17, 99] ! (0 * 3 + c)"
    by simp
  from this[rule_format, of 0] this[rule_format, of 1] this[rule_format, of 2]
  show ?thesis by (simp add: numeral_2_eq_2)
qed

subsection \<open>Image: encode and decode on concrete containers\<close>

lemma json_ICFHeader_json: "json_ICFHeader (ICFHeader_json h) = Some h"
  by (simp add: json_ICFHeader_def ICFHeader_json_def str_field_def num_field_def nat_field_def
      field_def)

lemma dec_enc_ICFHeader:
  "JSON_parse (stringify (ICFHeader_json h)) = Some (ICFHeader_json h) \<Longrightarrow>
   dec_ICFHeader (enc_ICFHeader h) = Some h"
  by (simp add: dec_ICFHeader_def enc_ICFHeader_def utf8_string_bytes json_ICFHeader_json)

lemma length_enc_ICFHeader: "length (enc_ICFHeader h) = length (stringify (ICFHeader_json h))"
  by (simp add: enc_ICFHeader_def length_utf8_bytes)

lemma dec_ICFBlocks_utf8:
  "JSON_parse s = Some (JArr js) \<Longrightarrow> all_some (map json_ICFBlock js) = Some bs \<Longrightarrow>
   dec_ICFBlocks (utf8_bytes s) = Some bs"
  by (simp add: dec_ICFBlocks_def utf8_string_bytes)

lemma writeUInt32LE_small: "n < 256 \<Longrightarrow> writeUInt32LE n = Inr [of_nat n, 0, 0, 0]"
  by (simp add: writeUInt32LE_def)

lemma ImageCodec_decode_framed:
  assumes "length (stringify (ICFHeader_json h)) = n" and "n < 256"
    and "JSON_parse (stringify (ICFHeader_json h)) = Some (ICFHeader_json h)"
    and "icf_magic h = ICF_MAGIC" and "icf_version h = ICF_VERSION"
    and "dec_ICFBlocks payload = Some blocks"
    and "decompressBlocks rd rs blocks (icf_width h) (icf_height h) (icf_quality h) = Inr ycocg"
  shows "ImageCodec_decode rd rs dec_ICFHeader dec_ICFBlocks
           (ascii_bytes ''ICF1'' @ [of_nat n, 0, 0, 0] @ enc_ICFHeader h @ payload)
         = Inr (ycocgToRgb rd ycocg (icf_width h) (icf_height h) (icf_channels h),
                icf_width h, icf_height h, icf_channels h)"
proof -
  have len: "length (enc_ICFHeader h) < 2 ^ 32"
    using assms(1,2) by (simp add: length_enc_ICFHeader)
  have rt: "dec_ICFHeader (enc_ICFHeader h) = Some h"
    using assms(3) by (rule dec_enc_ICFHeader)
  have w: "writeUInt32LE (length (enc_ICFHeader h)) = Inr [of_nat n, 0, 0, 0]"
    using assms(1,2) by (simp only: length_enc_ICFHeader writeUInt32LE_small)
  have c: "createContainer ICF_MAGIC enc_ICFHeader h payload
           = Inr (ascii_bytes ''ICF1'' @ [of_nat n, 0, 0, 0] @ enc_ICFHeader h @ payload)"
    by (simp only: createContainer_def Let_def w sum.case ICF_MAGIC_def)
  have "\<exists>c. createContainer ICF_MAGIC enc_ICFHeader h payload = Inr c
      \<and> parseContainer ICF_MAGIC dec_ICFHeader c = Inr (h, payload)"
    using len rt
    by (rule parseContainer_createContainer
          [where enc = enc_ICFHeader and dec = dec_ICFHeader and h = h and M = ICF_MAGIC])
       (simp_all add: ICF_MAGIC_def)
  with c have "parseContainer ICF_MAGIC dec_ICFHeader
      (ascii_bytes ''ICF1'' @ [of_nat n, 0, 0, 0] @ enc_ICFHeader h @ payload) = Inr (h, payload)"
    by (metis sum.inject(2))
  then show ?thesis
    using assms(4-7) by (simp add: ImageCodec_decode_def ImageCodec_parseContainer_def)
qed

lemma ImageCodec_encode_framed:
  assumes "img_width img \<noteq> 0" and "img_height img \<noteq> 0"
    and "stringify (JArr (map ICFBlock_json
           (compressBlocks rd (rgbToYCoCg rd rs (img_data img) (img_width img) (img_height img)
              (img_channels img)) (img_width img) (img_height img) quality))) = s"
    and "h = \<lparr> icf_magic = ICF_MAGIC, icf_version = ICF_VERSION,
             icf_width = img_width img, icf_height = img_height img,
             icf_channels = img_channels img, icf_colorSpace = ''YCoCg'',
             icf_quality = quality, icf_compressedSize = int (length s),
             icf_checksum = sha256 (img_data img) \<rparr>"
    and "length (stringify (ICFHeader_json h)) = n" and "n < 256"
  shows "ImageCodec_encode sha256 rd rs enc_ICFHeader enc_ICFBlocks img quality
         = Inr (ascii_bytes ''ICF1'' @ [of_nat n, 0, 0, 0] @ enc_ICFHeader h @ utf8_bytes s)"
proof -
  have w: "writeUInt32LE (length (enc_ICFHeader h)) = Inr [of_nat n, 0, 0, 0]"
    using assms(5,6) by (simp only: length_enc_ICFHeader writeUInt32LE_small)
  have s: "enc_ICFBlocks (compressBlocks rd (rgbToYCoCg rd rs (img_data img) (img_width img)
             (img_height img) (img_channels img)) (img_width img) (img_height img) quality)
           = utf8_bytes s"
    using assms(3) by (simp add: enc_ICFBlocks_def)
  have e: "ImageCodec_encode sha256 rd rs enc_ICFHeader enc_ICFBlocks img quality
           = ImageCodec_createContainer enc_ICFHeader h (utf8_bytes s)"
    unfolding ImageCodec_encode_def Let_def s length_utf8_bytes assms(4)
    using assms(1,2) by simp
  show ?thesis
    unfolding e ImageCodec_createContainer_def createContainer_def Let_def w
    by (simp add: ICF_MAGIC_def)
qed

lemma compress_white_150:
  "stringify (JArr (map ICFBlock_json
     (compressBlocks id (rgbToYCoCg id id [255, 255, 255] 1 1 3) 1 1 150)))
   = ''[{\"x\":0,\"y\":0,\"width\":1,\"height\":1,\"data\":[-1]},{\"x\":0,\"y\":0,\"width\":1,\"height\":1,\"data\":[0]},{\"x\":0,\"y\":0,\"width\":1,\"height\":1,\"data\":[0]}]''"
  by code_simp

lemma compress_white_50:
  "stringify (JArr (map ICFBlock_json
     (compressBlocks id (rgbToYCoCg id id [255, 255, 255] 1 1 3) 1 1 50)))
   = ''[{\"x\":0,\"y\":0,\"width\":1,\"height\":1,\"data\":[1]},{\"x\":0,\"y\":0,\"width\":1,\"height\":1,\"data\":[0]},{\"x\":0,\"y\":0,\"width\":1,\"height\":1,\"data\":[0]}]''"
  by code_simp

lemma header_150_length: "length (stringify (ICFHeader_json \<lparr> icf_magic = ''ICF1'', icf_version = 1, icf_width = 1, icf_height = 1,
          icf_channels = 3, icf_colorSpace = ''YCoCg'', icf_quality = 150,
          icf_compressedSize = 140,
          icf_checksum = ''5ae7e6a42304dc6e4176210b83c43024f99a0bce9a870c3b6d2c95fc8ebfb74c'' \<rparr>)) = 196"
  by code_simp

lemma header_50_length: "length (stringify (ICFHeader_json \<lparr> icf_magic = ''ICF1'', icf_version = 1, icf_width = 1, icf_height = 1,
          icf_channels = 3, icf_colorSpace = ''YCoCg'', icf_quality = 50,
          icf_compressedSize = 139,
          icf_checksum = ''5ae7e6a42304dc6e4176210b83c43024f99a0bce9a870c3b6d2c95fc8ebfb74c'' \<rparr>)) = 195"
  by code_simp

lemma header_50_parse:
  "JSON_parse (stringify (ICFHeader_json \<lparr> icf_magic = ''ICF1'', icf_version = 1, icf_width = 1, icf_height = 1,
          icf_channels = 3, icf_colorSpace = ''YCoCg'', icf_quality = 50,
          icf_compressedSize = 139,
          icf_checksum = ''5ae7e6a42304dc6e4176210b83c43024f99a0bce9a870c3b6d2c95fc8ebfb74c'' \<rparr>)) = Some (ICFHeader_json \<lparr> icf_magic = ''ICF1'', icf_version = 1, icf_width = 1, icf_height = 1,
          icf_channels = 3, icf_colorSpace = ''YCoCg'', icf_quality = 50,
          icf_compressedSize = 139,
          icf_checksum = ''5ae7e6a42304dc6e4176210b83c43024f99a0bce9a870c3b6d2c95fc8ebfb74c'' \<rparr>)"
  by code_simp

text \<open>
  C4. The claim is that image encode rejects a quality outside 1 to 100 before any
  compression work. \<open>ImageCodec.encode\<close> tests the dimensions and nothing else: at quality
  150 it computes the factor \<open>2 - 150 / 50 = -1\<close>, quantizes the blocks with it and returns
  a container whose header records the quality 150. The theorem evaluates the encoder on
  a white image of one pixel; every operation at this input is exact in binary floating
  point, so no rounding is involved.
\<close>

theorem ImageCodec_encode_accepts_quality_150:
  "ImageCodec_encode (digest_table [([255, 255, 255],
        ''5ae7e6a42304dc6e4176210b83c43024f99a0bce9a870c3b6d2c95fc8ebfb74c'')])
     id id enc_ICFHeader enc_ICFBlocks
     \<lparr> img_data = [255, 255, 255], img_width = 1, img_height = 1, img_channels = 3 \<rparr> 150
   = Inr (ascii_bytes ''ICF1'' @ [196, 0, 0, 0]
          @ enc_ICFHeader
              \<lparr> icf_magic = ''ICF1'', icf_version = 1, icf_width = 1, icf_height = 1,
          icf_channels = 3, icf_colorSpace = ''YCoCg'', icf_quality = 150,
          icf_compressedSize = 140,
          icf_checksum = ''5ae7e6a42304dc6e4176210b83c43024f99a0bce9a870c3b6d2c95fc8ebfb74c'' \<rparr>
          @ utf8_bytes ''[{\"x\":0,\"y\":0,\"width\":1,\"height\":1,\"data\":[-1]},{\"x\":0,\"y\":0,\"width\":1,\"height\":1,\"data\":[0]},{\"x\":0,\"y\":0,\"width\":1,\"height\":1,\"data\":[0]}]'')"
proof -
  have "ImageCodec_encode (digest_table [([255, 255, 255],
        ''5ae7e6a42304dc6e4176210b83c43024f99a0bce9a870c3b6d2c95fc8ebfb74c'')])
     id id enc_ICFHeader enc_ICFBlocks
     \<lparr> img_data = [255, 255, 255], img_width = 1, img_height = 1, img_channels = 3 \<rparr> 150
   = Inr (ascii_bytes ''ICF1'' @ [of_nat 196, 0, 0, 0]
          @ enc_ICFHeader
              \<lparr> icf_magic = ''ICF1'', icf_version = 1, icf_width = 1, icf_height = 1,
          icf_channels = 3, icf_colorSpace = ''YCoCg'', icf_quality = 150,
          icf_compressedSize = 140,
          icf_checksum = ''5ae7e6a42304dc6e4176210b83c43024f99a0bce9a870c3b6d2c95fc8ebfb74c'' \<rparr>
          @ utf8_bytes ''[{\"x\":0,\"y\":0,\"width\":1,\"height\":1,\"data\":[-1]},{\"x\":0,\"y\":0,\"width\":1,\"height\":1,\"data\":[0]},{\"x\":0,\"y\":0,\"width\":1,\"height\":1,\"data\":[0]}]'')"
  proof (rule ImageCodec_encode_framed)
    show "stringify (JArr (map ICFBlock_json
           (compressBlocks id (rgbToYCoCg id id (img_data \<lparr> img_data = [255, 255, 255], img_width = 1, img_height = 1, img_channels = 3 \<rparr>) (img_width \<lparr> img_data = [255, 255, 255], img_width = 1, img_height = 1, img_channels = 3 \<rparr>) (img_height \<lparr> img_data = [255, 255, 255], img_width = 1, img_height = 1, img_channels = 3 \<rparr>)
              (img_channels \<lparr> img_data = [255, 255, 255], img_width = 1, img_height = 1, img_channels = 3 \<rparr>)) (img_width \<lparr> img_data = [255, 255, 255], img_width = 1, img_height = 1, img_channels = 3 \<rparr>) (img_height \<lparr> img_data = [255, 255, 255], img_width = 1, img_height = 1, img_channels = 3 \<rparr>) 150))) = ''[{\"x\":0,\"y\":0,\"width\":1,\"height\":1,\"data\":[-1]},{\"x\":0,\"y\":0,\"width\":1,\"height\":1,\"data\":[0]},{\"x\":0,\"y\":0,\"width\":1,\"height\":1,\"data\":[0]}]''"
      using compress_white_150 by simp
    show "length (stringify (ICFHeader_json \<lparr> icf_magic = ''ICF1'', icf_version = 1, icf_width = 1, icf_height = 1,
          icf_channels = 3, icf_colorSpace = ''YCoCg'', icf_quality = 150,
          icf_compressedSize = 140,
          icf_checksum = ''5ae7e6a42304dc6e4176210b83c43024f99a0bce9a870c3b6d2c95fc8ebfb74c'' \<rparr>)) = 196"
      by (rule header_150_length)
    show "\<lparr> icf_magic = ''ICF1'', icf_version = 1, icf_width = 1, icf_height = 1,
          icf_channels = 3, icf_colorSpace = ''YCoCg'', icf_quality = 150,
          icf_compressedSize = 140,
          icf_checksum = ''5ae7e6a42304dc6e4176210b83c43024f99a0bce9a870c3b6d2c95fc8ebfb74c'' \<rparr> = \<lparr> icf_magic = ICF_MAGIC, icf_version = ICF_VERSION,
             icf_width = img_width \<lparr> img_data = [255, 255, 255], img_width = 1, img_height = 1, img_channels = 3 \<rparr>, icf_height = img_height \<lparr> img_data = [255, 255, 255], img_width = 1, img_height = 1, img_channels = 3 \<rparr>,
             icf_channels = img_channels \<lparr> img_data = [255, 255, 255], img_width = 1, img_height = 1, img_channels = 3 \<rparr>, icf_colorSpace = ''YCoCg'',
             icf_quality = 150, icf_compressedSize = int (length ''[{\"x\":0,\"y\":0,\"width\":1,\"height\":1,\"data\":[-1]},{\"x\":0,\"y\":0,\"width\":1,\"height\":1,\"data\":[0]},{\"x\":0,\"y\":0,\"width\":1,\"height\":1,\"data\":[0]}]''),
             icf_checksum = (digest_table [([255, 255, 255],
        ''5ae7e6a42304dc6e4176210b83c43024f99a0bce9a870c3b6d2c95fc8ebfb74c'')]) (img_data \<lparr> img_data = [255, 255, 255], img_width = 1, img_height = 1, img_channels = 3 \<rparr>) \<rparr>"
      by (simp add: ICF_MAGIC_def ICF_VERSION_def digest_table_def)
  qed simp_all
  then show ?thesis by simp
qed

lemma blocks_white_parse:
  "dec_ICFBlocks (utf8_bytes ''[{\"x\":0,\"y\":0,\"width\":1,\"height\":1,\"data\":[1]},{\"x\":0,\"y\":0,\"width\":1,\"height\":1,\"data\":[0]},{\"x\":0,\"y\":0,\"width\":1,\"height\":1,\"data\":[0]}]'')
   = Some [\<lparr> blk_x = 0, blk_y = 0, blk_width = 1, blk_height = 1, blk_data = [Fin 1] \<rparr>,
         \<lparr> blk_x = 0, blk_y = 0, blk_width = 1, blk_height = 1, blk_data = [Fin 0] \<rparr>,
         \<lparr> blk_x = 0, blk_y = 0, blk_width = 1, blk_height = 1, blk_data = [Fin 0] \<rparr>]"
proof -
  have "JSON_parse ''[{\"x\":0,\"y\":0,\"width\":1,\"height\":1,\"data\":[1]},{\"x\":0,\"y\":0,\"width\":1,\"height\":1,\"data\":[0]},{\"x\":0,\"y\":0,\"width\":1,\"height\":1,\"data\":[0]}]''
        = Some (JArr [JObj [(''x'', JNum 0), (''y'', JNum 0), (''width'', JNum 1), (''height'', JNum 1),
               (''data'', JArr [JNum 1])],
         JObj [(''x'', JNum 0), (''y'', JNum 0), (''width'', JNum 1), (''height'', JNum 1),
               (''data'', JArr [JNum 0])],
         JObj [(''x'', JNum 0), (''y'', JNum 0), (''width'', JNum 1), (''height'', JNum 1),
               (''data'', JArr [JNum 0])]])"
    by code_simp
  then show ?thesis
    by (simp add: dec_ICFBlocks_def utf8_string_bytes json_ICFBlock_def nat_field_def
        num_field_def field_def json_jsnum_def jnum_def)
qed

lemma blocks_modified_parse:
  "dec_ICFBlocks (utf8_bytes ''[{\"x\":0,\"y\":0,\"width\":1,\"height\":1,\"data\":[0]},{\"x\":0,\"y\":0,\"width\":1,\"height\":1,\"data\":[0]},{\"x\":0,\"y\":0,\"width\":1,\"height\":1,\"data\":[0]}]'')
   = Some [\<lparr> blk_x = 0, blk_y = 0, blk_width = 1, blk_height = 1, blk_data = [Fin 0] \<rparr>,
         \<lparr> blk_x = 0, blk_y = 0, blk_width = 1, blk_height = 1, blk_data = [Fin 0] \<rparr>,
         \<lparr> blk_x = 0, blk_y = 0, blk_width = 1, blk_height = 1, blk_data = [Fin 0] \<rparr>]"
proof -
  have "JSON_parse ''[{\"x\":0,\"y\":0,\"width\":1,\"height\":1,\"data\":[0]},{\"x\":0,\"y\":0,\"width\":1,\"height\":1,\"data\":[0]},{\"x\":0,\"y\":0,\"width\":1,\"height\":1,\"data\":[0]}]''
        = Some (JArr [JObj [(''x'', JNum 0), (''y'', JNum 0), (''width'', JNum 1), (''height'', JNum 1),
               (''data'', JArr [JNum 0])],
         JObj [(''x'', JNum 0), (''y'', JNum 0), (''width'', JNum 1), (''height'', JNum 1),
               (''data'', JArr [JNum 0])],
         JObj [(''x'', JNum 0), (''y'', JNum 0), (''width'', JNum 1), (''height'', JNum 1),
               (''data'', JArr [JNum 0])]])"
    by code_simp
  then show ?thesis
    by (simp add: dec_ICFBlocks_def utf8_string_bytes json_ICFBlock_def nat_field_def
        num_field_def field_def json_jsnum_def jnum_def)
qed

lemma decompress_white:
  "decompressBlocks id id [\<lparr> blk_x = 0, blk_y = 0, blk_width = 1, blk_height = 1, blk_data = [Fin 1] \<rparr>,
         \<lparr> blk_x = 0, blk_y = 0, blk_width = 1, blk_height = 1, blk_data = [Fin 0] \<rparr>,
         \<lparr> blk_x = 0, blk_y = 0, blk_width = 1, blk_height = 1, blk_data = [Fin 0] \<rparr>] 1 1 50 = Inr [Fin 1, Fin 0, Fin 0]"
  by code_simp

lemma decompress_modified:
  "decompressBlocks id id [\<lparr> blk_x = 0, blk_y = 0, blk_width = 1, blk_height = 1, blk_data = [Fin 0] \<rparr>,
         \<lparr> blk_x = 0, blk_y = 0, blk_width = 1, blk_height = 1, blk_data = [Fin 0] \<rparr>,
         \<lparr> blk_x = 0, blk_y = 0, blk_width = 1, blk_height = 1, blk_data = [Fin 0] \<rparr>] 1 1 50 = Inr [Fin 0, Fin 0, Fin 0]"
  by code_simp

lemma ycocgToRgb_white: "ycocgToRgb id [Fin 1, Fin 0, Fin 0] 1 1 3 = [255, 255, 255]"
  by code_simp

lemma ycocgToRgb_black: "ycocgToRgb id [Fin 0, Fin 0, Fin 0] 1 1 3 = [0, 0, 0]"
  by code_simp

text \<open>
  C3. The claim is that a change of one payload byte makes decode fail. \<open>ImageCodec.decode\<close>
  never reads the checksum that \<open>ImageCodec.encode\<close> stamps into the header. The theorem
  takes the container that the encoder produces for a white image of one pixel at
  quality 50, which decodes to the white pixel, changes the one payload byte at index 43
  from \<open>1\<close> to \<open>0\<close>, and evaluates the decoder on the result: it returns the black pixel,
  with no error. Every operation at these inputs is exact in binary floating point.
\<close>

theorem ImageCodec_decode_accepts_modified_payload:
  "ImageCodec_encode (digest_table [([255, 255, 255],
        ''5ae7e6a42304dc6e4176210b83c43024f99a0bce9a870c3b6d2c95fc8ebfb74c'')])
     id id enc_ICFHeader enc_ICFBlocks
     \<lparr> img_data = [255, 255, 255], img_width = 1, img_height = 1, img_channels = 3 \<rparr> 50
   = Inr (ascii_bytes ''ICF1'' @ [195, 0, 0, 0]
          @ enc_ICFHeader
              \<lparr> icf_magic = ''ICF1'', icf_version = 1, icf_width = 1, icf_height = 1,
          icf_channels = 3, icf_colorSpace = ''YCoCg'', icf_quality = 50,
          icf_compressedSize = 139,
          icf_checksum = ''5ae7e6a42304dc6e4176210b83c43024f99a0bce9a870c3b6d2c95fc8ebfb74c'' \<rparr>
          @ utf8_bytes ''[{\"x\":0,\"y\":0,\"width\":1,\"height\":1,\"data\":[1]},{\"x\":0,\"y\":0,\"width\":1,\"height\":1,\"data\":[0]},{\"x\":0,\"y\":0,\"width\":1,\"height\":1,\"data\":[0]}]'')
   \<and> ImageCodec_decode id id dec_ICFHeader dec_ICFBlocks
         (ascii_bytes ''ICF1'' @ [195, 0, 0, 0]
          @ enc_ICFHeader
              \<lparr> icf_magic = ''ICF1'', icf_version = 1, icf_width = 1, icf_height = 1,
          icf_channels = 3, icf_colorSpace = ''YCoCg'', icf_quality = 50,
          icf_compressedSize = 139,
          icf_checksum = ''5ae7e6a42304dc6e4176210b83c43024f99a0bce9a870c3b6d2c95fc8ebfb74c'' \<rparr>
          @ utf8_bytes ''[{\"x\":0,\"y\":0,\"width\":1,\"height\":1,\"data\":[1]},{\"x\":0,\"y\":0,\"width\":1,\"height\":1,\"data\":[0]},{\"x\":0,\"y\":0,\"width\":1,\"height\":1,\"data\":[0]}]'')
     = Inr ([255, 255, 255], 1, 1, 3)
   \<and> ''[{\"x\":0,\"y\":0,\"width\":1,\"height\":1,\"data\":[1]},{\"x\":0,\"y\":0,\"width\":1,\"height\":1,\"data\":[0]},{\"x\":0,\"y\":0,\"width\":1,\"height\":1,\"data\":[0]}]''[43 := CHR ''0'']
     = ''[{\"x\":0,\"y\":0,\"width\":1,\"height\":1,\"data\":[0]},{\"x\":0,\"y\":0,\"width\":1,\"height\":1,\"data\":[0]},{\"x\":0,\"y\":0,\"width\":1,\"height\":1,\"data\":[0]}]''
   \<and> ImageCodec_decode id id dec_ICFHeader dec_ICFBlocks
         (ascii_bytes ''ICF1'' @ [195, 0, 0, 0]
          @ enc_ICFHeader
              \<lparr> icf_magic = ''ICF1'', icf_version = 1, icf_width = 1, icf_height = 1,
          icf_channels = 3, icf_colorSpace = ''YCoCg'', icf_quality = 50,
          icf_compressedSize = 139,
          icf_checksum = ''5ae7e6a42304dc6e4176210b83c43024f99a0bce9a870c3b6d2c95fc8ebfb74c'' \<rparr>
          @ utf8_bytes ''[{\"x\":0,\"y\":0,\"width\":1,\"height\":1,\"data\":[0]},{\"x\":0,\"y\":0,\"width\":1,\"height\":1,\"data\":[0]},{\"x\":0,\"y\":0,\"width\":1,\"height\":1,\"data\":[0]}]'')
     = Inr ([0, 0, 0], 1, 1, 3)"
proof (intro conjI)
  have "ImageCodec_encode (digest_table [([255, 255, 255],
        ''5ae7e6a42304dc6e4176210b83c43024f99a0bce9a870c3b6d2c95fc8ebfb74c'')])
     id id enc_ICFHeader enc_ICFBlocks
     \<lparr> img_data = [255, 255, 255], img_width = 1, img_height = 1, img_channels = 3 \<rparr> 50
   = Inr (ascii_bytes ''ICF1'' @ [of_nat 195, 0, 0, 0]
          @ enc_ICFHeader
              \<lparr> icf_magic = ''ICF1'', icf_version = 1, icf_width = 1, icf_height = 1,
          icf_channels = 3, icf_colorSpace = ''YCoCg'', icf_quality = 50,
          icf_compressedSize = 139,
          icf_checksum = ''5ae7e6a42304dc6e4176210b83c43024f99a0bce9a870c3b6d2c95fc8ebfb74c'' \<rparr>
          @ utf8_bytes ''[{\"x\":0,\"y\":0,\"width\":1,\"height\":1,\"data\":[1]},{\"x\":0,\"y\":0,\"width\":1,\"height\":1,\"data\":[0]},{\"x\":0,\"y\":0,\"width\":1,\"height\":1,\"data\":[0]}]'')"
  proof (rule ImageCodec_encode_framed)
    show "stringify (JArr (map ICFBlock_json
           (compressBlocks id (rgbToYCoCg id id (img_data \<lparr> img_data = [255, 255, 255], img_width = 1, img_height = 1, img_channels = 3 \<rparr>) (img_width \<lparr> img_data = [255, 255, 255], img_width = 1, img_height = 1, img_channels = 3 \<rparr>) (img_height \<lparr> img_data = [255, 255, 255], img_width = 1, img_height = 1, img_channels = 3 \<rparr>)
              (img_channels \<lparr> img_data = [255, 255, 255], img_width = 1, img_height = 1, img_channels = 3 \<rparr>)) (img_width \<lparr> img_data = [255, 255, 255], img_width = 1, img_height = 1, img_channels = 3 \<rparr>) (img_height \<lparr> img_data = [255, 255, 255], img_width = 1, img_height = 1, img_channels = 3 \<rparr>) 50))) = ''[{\"x\":0,\"y\":0,\"width\":1,\"height\":1,\"data\":[1]},{\"x\":0,\"y\":0,\"width\":1,\"height\":1,\"data\":[0]},{\"x\":0,\"y\":0,\"width\":1,\"height\":1,\"data\":[0]}]''"
      using compress_white_50 by simp
    show "length (stringify (ICFHeader_json \<lparr> icf_magic = ''ICF1'', icf_version = 1, icf_width = 1, icf_height = 1,
          icf_channels = 3, icf_colorSpace = ''YCoCg'', icf_quality = 50,
          icf_compressedSize = 139,
          icf_checksum = ''5ae7e6a42304dc6e4176210b83c43024f99a0bce9a870c3b6d2c95fc8ebfb74c'' \<rparr>)) = 195"
      by (rule header_50_length)
    show "\<lparr> icf_magic = ''ICF1'', icf_version = 1, icf_width = 1, icf_height = 1,
          icf_channels = 3, icf_colorSpace = ''YCoCg'', icf_quality = 50,
          icf_compressedSize = 139,
          icf_checksum = ''5ae7e6a42304dc6e4176210b83c43024f99a0bce9a870c3b6d2c95fc8ebfb74c'' \<rparr> = \<lparr> icf_magic = ICF_MAGIC, icf_version = ICF_VERSION,
             icf_width = img_width \<lparr> img_data = [255, 255, 255], img_width = 1, img_height = 1, img_channels = 3 \<rparr>, icf_height = img_height \<lparr> img_data = [255, 255, 255], img_width = 1, img_height = 1, img_channels = 3 \<rparr>,
             icf_channels = img_channels \<lparr> img_data = [255, 255, 255], img_width = 1, img_height = 1, img_channels = 3 \<rparr>, icf_colorSpace = ''YCoCg'',
             icf_quality = 50, icf_compressedSize = int (length ''[{\"x\":0,\"y\":0,\"width\":1,\"height\":1,\"data\":[1]},{\"x\":0,\"y\":0,\"width\":1,\"height\":1,\"data\":[0]},{\"x\":0,\"y\":0,\"width\":1,\"height\":1,\"data\":[0]}]''),
             icf_checksum = (digest_table [([255, 255, 255],
        ''5ae7e6a42304dc6e4176210b83c43024f99a0bce9a870c3b6d2c95fc8ebfb74c'')]) (img_data \<lparr> img_data = [255, 255, 255], img_width = 1, img_height = 1, img_channels = 3 \<rparr>) \<rparr>"
      by (simp add: ICF_MAGIC_def ICF_VERSION_def digest_table_def)
  qed simp_all
  then show "ImageCodec_encode (digest_table [([255, 255, 255],
        ''5ae7e6a42304dc6e4176210b83c43024f99a0bce9a870c3b6d2c95fc8ebfb74c'')])
     id id enc_ICFHeader enc_ICFBlocks
     \<lparr> img_data = [255, 255, 255], img_width = 1, img_height = 1, img_channels = 3 \<rparr> 50
   = Inr (ascii_bytes ''ICF1'' @ [195, 0, 0, 0]
          @ enc_ICFHeader
              \<lparr> icf_magic = ''ICF1'', icf_version = 1, icf_width = 1, icf_height = 1,
          icf_channels = 3, icf_colorSpace = ''YCoCg'', icf_quality = 50,
          icf_compressedSize = 139,
          icf_checksum = ''5ae7e6a42304dc6e4176210b83c43024f99a0bce9a870c3b6d2c95fc8ebfb74c'' \<rparr>
          @ utf8_bytes ''[{\"x\":0,\"y\":0,\"width\":1,\"height\":1,\"data\":[1]},{\"x\":0,\"y\":0,\"width\":1,\"height\":1,\"data\":[0]},{\"x\":0,\"y\":0,\"width\":1,\"height\":1,\"data\":[0]}]'')"
    by simp
next
  have "ImageCodec_decode id id dec_ICFHeader dec_ICFBlocks
         (ascii_bytes ''ICF1'' @ [of_nat 195, 0, 0, 0]
          @ enc_ICFHeader
              \<lparr> icf_magic = ''ICF1'', icf_version = 1, icf_width = 1, icf_height = 1,
          icf_channels = 3, icf_colorSpace = ''YCoCg'', icf_quality = 50,
          icf_compressedSize = 139,
          icf_checksum = ''5ae7e6a42304dc6e4176210b83c43024f99a0bce9a870c3b6d2c95fc8ebfb74c'' \<rparr>
          @ utf8_bytes ''[{\"x\":0,\"y\":0,\"width\":1,\"height\":1,\"data\":[1]},{\"x\":0,\"y\":0,\"width\":1,\"height\":1,\"data\":[0]},{\"x\":0,\"y\":0,\"width\":1,\"height\":1,\"data\":[0]}]'')
     = Inr (ycocgToRgb id [Fin 1, Fin 0, Fin 0] (icf_width \<lparr> icf_magic = ''ICF1'', icf_version = 1, icf_width = 1, icf_height = 1,
          icf_channels = 3, icf_colorSpace = ''YCoCg'', icf_quality = 50,
          icf_compressedSize = 139,
          icf_checksum = ''5ae7e6a42304dc6e4176210b83c43024f99a0bce9a870c3b6d2c95fc8ebfb74c'' \<rparr>) (icf_height \<lparr> icf_magic = ''ICF1'', icf_version = 1, icf_width = 1, icf_height = 1,
          icf_channels = 3, icf_colorSpace = ''YCoCg'', icf_quality = 50,
          icf_compressedSize = 139,
          icf_checksum = ''5ae7e6a42304dc6e4176210b83c43024f99a0bce9a870c3b6d2c95fc8ebfb74c'' \<rparr>) (icf_channels \<lparr> icf_magic = ''ICF1'', icf_version = 1, icf_width = 1, icf_height = 1,
          icf_channels = 3, icf_colorSpace = ''YCoCg'', icf_quality = 50,
          icf_compressedSize = 139,
          icf_checksum = ''5ae7e6a42304dc6e4176210b83c43024f99a0bce9a870c3b6d2c95fc8ebfb74c'' \<rparr>),
            icf_width \<lparr> icf_magic = ''ICF1'', icf_version = 1, icf_width = 1, icf_height = 1,
          icf_channels = 3, icf_colorSpace = ''YCoCg'', icf_quality = 50,
          icf_compressedSize = 139,
          icf_checksum = ''5ae7e6a42304dc6e4176210b83c43024f99a0bce9a870c3b6d2c95fc8ebfb74c'' \<rparr>, icf_height \<lparr> icf_magic = ''ICF1'', icf_version = 1, icf_width = 1, icf_height = 1,
          icf_channels = 3, icf_colorSpace = ''YCoCg'', icf_quality = 50,
          icf_compressedSize = 139,
          icf_checksum = ''5ae7e6a42304dc6e4176210b83c43024f99a0bce9a870c3b6d2c95fc8ebfb74c'' \<rparr>, icf_channels \<lparr> icf_magic = ''ICF1'', icf_version = 1, icf_width = 1, icf_height = 1,
          icf_channels = 3, icf_colorSpace = ''YCoCg'', icf_quality = 50,
          icf_compressedSize = 139,
          icf_checksum = ''5ae7e6a42304dc6e4176210b83c43024f99a0bce9a870c3b6d2c95fc8ebfb74c'' \<rparr>)"
  proof (rule ImageCodec_decode_framed[OF header_50_length _ header_50_parse _ _ blocks_white_parse])
    show "decompressBlocks id id
        [\<lparr> blk_x = 0, blk_y = 0, blk_width = 1, blk_height = 1, blk_data = [Fin 1] \<rparr>,
         \<lparr> blk_x = 0, blk_y = 0, blk_width = 1, blk_height = 1, blk_data = [Fin 0] \<rparr>,
         \<lparr> blk_x = 0, blk_y = 0, blk_width = 1, blk_height = 1, blk_data = [Fin 0] \<rparr>]
        (icf_width \<lparr> icf_magic = ''ICF1'', icf_version = 1, icf_width = 1, icf_height = 1,
          icf_channels = 3, icf_colorSpace = ''YCoCg'', icf_quality = 50,
          icf_compressedSize = 139,
          icf_checksum = ''5ae7e6a42304dc6e4176210b83c43024f99a0bce9a870c3b6d2c95fc8ebfb74c'' \<rparr>)
        (icf_height \<lparr> icf_magic = ''ICF1'', icf_version = 1, icf_width = 1, icf_height = 1,
          icf_channels = 3, icf_colorSpace = ''YCoCg'', icf_quality = 50,
          icf_compressedSize = 139,
          icf_checksum = ''5ae7e6a42304dc6e4176210b83c43024f99a0bce9a870c3b6d2c95fc8ebfb74c'' \<rparr>)
        (icf_quality \<lparr> icf_magic = ''ICF1'', icf_version = 1, icf_width = 1, icf_height = 1,
          icf_channels = 3, icf_colorSpace = ''YCoCg'', icf_quality = 50,
          icf_compressedSize = 139,
          icf_checksum = ''5ae7e6a42304dc6e4176210b83c43024f99a0bce9a870c3b6d2c95fc8ebfb74c'' \<rparr>)
      = Inr [Fin 1, Fin 0, Fin 0]"
      unfolding ICFHeader.select_convs by (rule decompress_white)
  qed (simp_all add: ICF_MAGIC_def ICF_VERSION_def)
  then show "ImageCodec_decode id id dec_ICFHeader dec_ICFBlocks
         (ascii_bytes ''ICF1'' @ [195, 0, 0, 0]
          @ enc_ICFHeader
              \<lparr> icf_magic = ''ICF1'', icf_version = 1, icf_width = 1, icf_height = 1,
          icf_channels = 3, icf_colorSpace = ''YCoCg'', icf_quality = 50,
          icf_compressedSize = 139,
          icf_checksum = ''5ae7e6a42304dc6e4176210b83c43024f99a0bce9a870c3b6d2c95fc8ebfb74c'' \<rparr>
          @ utf8_bytes ''[{\"x\":0,\"y\":0,\"width\":1,\"height\":1,\"data\":[1]},{\"x\":0,\"y\":0,\"width\":1,\"height\":1,\"data\":[0]},{\"x\":0,\"y\":0,\"width\":1,\"height\":1,\"data\":[0]}]'')
     = Inr ([255, 255, 255], 1, 1, 3)"
    unfolding ICFHeader.select_convs ycocgToRgb_white by simp
next
  show "''[{\"x\":0,\"y\":0,\"width\":1,\"height\":1,\"data\":[1]},{\"x\":0,\"y\":0,\"width\":1,\"height\":1,\"data\":[0]},{\"x\":0,\"y\":0,\"width\":1,\"height\":1,\"data\":[0]}]''[43 := CHR ''0'']
     = ''[{\"x\":0,\"y\":0,\"width\":1,\"height\":1,\"data\":[0]},{\"x\":0,\"y\":0,\"width\":1,\"height\":1,\"data\":[0]},{\"x\":0,\"y\":0,\"width\":1,\"height\":1,\"data\":[0]}]''"
    by simp
next
  have "ImageCodec_decode id id dec_ICFHeader dec_ICFBlocks
         (ascii_bytes ''ICF1'' @ [of_nat 195, 0, 0, 0]
          @ enc_ICFHeader
              \<lparr> icf_magic = ''ICF1'', icf_version = 1, icf_width = 1, icf_height = 1,
          icf_channels = 3, icf_colorSpace = ''YCoCg'', icf_quality = 50,
          icf_compressedSize = 139,
          icf_checksum = ''5ae7e6a42304dc6e4176210b83c43024f99a0bce9a870c3b6d2c95fc8ebfb74c'' \<rparr>
          @ utf8_bytes ''[{\"x\":0,\"y\":0,\"width\":1,\"height\":1,\"data\":[0]},{\"x\":0,\"y\":0,\"width\":1,\"height\":1,\"data\":[0]},{\"x\":0,\"y\":0,\"width\":1,\"height\":1,\"data\":[0]}]'')
     = Inr (ycocgToRgb id [Fin 0, Fin 0, Fin 0] (icf_width \<lparr> icf_magic = ''ICF1'', icf_version = 1, icf_width = 1, icf_height = 1,
          icf_channels = 3, icf_colorSpace = ''YCoCg'', icf_quality = 50,
          icf_compressedSize = 139,
          icf_checksum = ''5ae7e6a42304dc6e4176210b83c43024f99a0bce9a870c3b6d2c95fc8ebfb74c'' \<rparr>) (icf_height \<lparr> icf_magic = ''ICF1'', icf_version = 1, icf_width = 1, icf_height = 1,
          icf_channels = 3, icf_colorSpace = ''YCoCg'', icf_quality = 50,
          icf_compressedSize = 139,
          icf_checksum = ''5ae7e6a42304dc6e4176210b83c43024f99a0bce9a870c3b6d2c95fc8ebfb74c'' \<rparr>) (icf_channels \<lparr> icf_magic = ''ICF1'', icf_version = 1, icf_width = 1, icf_height = 1,
          icf_channels = 3, icf_colorSpace = ''YCoCg'', icf_quality = 50,
          icf_compressedSize = 139,
          icf_checksum = ''5ae7e6a42304dc6e4176210b83c43024f99a0bce9a870c3b6d2c95fc8ebfb74c'' \<rparr>),
            icf_width \<lparr> icf_magic = ''ICF1'', icf_version = 1, icf_width = 1, icf_height = 1,
          icf_channels = 3, icf_colorSpace = ''YCoCg'', icf_quality = 50,
          icf_compressedSize = 139,
          icf_checksum = ''5ae7e6a42304dc6e4176210b83c43024f99a0bce9a870c3b6d2c95fc8ebfb74c'' \<rparr>, icf_height \<lparr> icf_magic = ''ICF1'', icf_version = 1, icf_width = 1, icf_height = 1,
          icf_channels = 3, icf_colorSpace = ''YCoCg'', icf_quality = 50,
          icf_compressedSize = 139,
          icf_checksum = ''5ae7e6a42304dc6e4176210b83c43024f99a0bce9a870c3b6d2c95fc8ebfb74c'' \<rparr>, icf_channels \<lparr> icf_magic = ''ICF1'', icf_version = 1, icf_width = 1, icf_height = 1,
          icf_channels = 3, icf_colorSpace = ''YCoCg'', icf_quality = 50,
          icf_compressedSize = 139,
          icf_checksum = ''5ae7e6a42304dc6e4176210b83c43024f99a0bce9a870c3b6d2c95fc8ebfb74c'' \<rparr>)"
  proof (rule ImageCodec_decode_framed[OF header_50_length _ header_50_parse _ _ blocks_modified_parse])
    show "decompressBlocks id id
        [\<lparr> blk_x = 0, blk_y = 0, blk_width = 1, blk_height = 1, blk_data = [Fin 0] \<rparr>,
         \<lparr> blk_x = 0, blk_y = 0, blk_width = 1, blk_height = 1, blk_data = [Fin 0] \<rparr>,
         \<lparr> blk_x = 0, blk_y = 0, blk_width = 1, blk_height = 1, blk_data = [Fin 0] \<rparr>]
        (icf_width \<lparr> icf_magic = ''ICF1'', icf_version = 1, icf_width = 1, icf_height = 1,
          icf_channels = 3, icf_colorSpace = ''YCoCg'', icf_quality = 50,
          icf_compressedSize = 139,
          icf_checksum = ''5ae7e6a42304dc6e4176210b83c43024f99a0bce9a870c3b6d2c95fc8ebfb74c'' \<rparr>)
        (icf_height \<lparr> icf_magic = ''ICF1'', icf_version = 1, icf_width = 1, icf_height = 1,
          icf_channels = 3, icf_colorSpace = ''YCoCg'', icf_quality = 50,
          icf_compressedSize = 139,
          icf_checksum = ''5ae7e6a42304dc6e4176210b83c43024f99a0bce9a870c3b6d2c95fc8ebfb74c'' \<rparr>)
        (icf_quality \<lparr> icf_magic = ''ICF1'', icf_version = 1, icf_width = 1, icf_height = 1,
          icf_channels = 3, icf_colorSpace = ''YCoCg'', icf_quality = 50,
          icf_compressedSize = 139,
          icf_checksum = ''5ae7e6a42304dc6e4176210b83c43024f99a0bce9a870c3b6d2c95fc8ebfb74c'' \<rparr>)
      = Inr [Fin 0, Fin 0, Fin 0]"
      unfolding ICFHeader.select_convs by (rule decompress_modified)
  qed (simp_all add: ICF_MAGIC_def ICF_VERSION_def)
  then show "ImageCodec_decode id id dec_ICFHeader dec_ICFBlocks
         (ascii_bytes ''ICF1'' @ [195, 0, 0, 0]
          @ enc_ICFHeader
              \<lparr> icf_magic = ''ICF1'', icf_version = 1, icf_width = 1, icf_height = 1,
          icf_channels = 3, icf_colorSpace = ''YCoCg'', icf_quality = 50,
          icf_compressedSize = 139,
          icf_checksum = ''5ae7e6a42304dc6e4176210b83c43024f99a0bce9a870c3b6d2c95fc8ebfb74c'' \<rparr>
          @ utf8_bytes ''[{\"x\":0,\"y\":0,\"width\":1,\"height\":1,\"data\":[0]},{\"x\":0,\"y\":0,\"width\":1,\"height\":1,\"data\":[0]},{\"x\":0,\"y\":0,\"width\":1,\"height\":1,\"data\":[0]}]'')
     = Inr ([0, 0, 0], 1, 1, 3)"
    unfolding ICFHeader.select_convs ycocgToRgb_black by simp
qed

end
